theory Spec2Isabelle
  imports Complex_Main "HOL-Library.Multiset"
begin

section \<open>Python values\<close>

text \<open>
  The generator of \<^verbatim>\<open>api-design/scripts/generate_openapi.py\<close> works on what
  \<^verbatim>\<open>json.load\<close> returns and builds nested dictionaries and lists from it. Both sides are
  values of one type. A dictionary is an association list in insertion order, which is the
  order Python keeps and the order \<^verbatim>\<open>yaml.dump(..., sort_keys=False)\<close> writes.
  A string is the list of the bytes of its UTF-8 encoding: an ASCII character is one
  \<open>char\<close>, any other character is two to four of them.
  A float is the rational number it denotes; the non-finite floats are not JSON and are
  left out. Python holds no two equal keys in a dictionary: \<open>d_set\<close> keeps it so, and
  a lookup reads the first entry with the key.
\<close>

datatype pyval =
    PNone
  | PBool bool
  | PInt int
  | PFloat rat
  | PStr string
  | PList "pyval list"
  | PDict "(pyval \<times> pyval) list"

type_synonym pydict = "(pyval \<times> pyval) list"

datatype error =
    KeyError string
  | AttributeError
  | TypeError
  | FileNotFoundError
  | JSONDecodeError
  | OSError
  | UnicodeEncodeError

text \<open>Truth value testing, as \<^verbatim>\<open>if x:\<close> does it.\<close>

fun truthy :: "pyval \<Rightarrow> bool" where
  "truthy PNone = False"
| "truthy (PBool b) = b"
| "truthy (PInt i) = (i \<noteq> 0)"
| "truthy (PFloat r) = (r \<noteq> 0)"
| "truthy (PStr s) = (s \<noteq> [])"
| "truthy (PList xs) = (xs \<noteq> [])"
| "truthy (PDict kvs) = (kvs \<noteq> [])"

text \<open>Lists and dictionaries cannot be dictionary keys or set elements.\<close>

fun hashable :: "pyval \<Rightarrow> bool" where
  "hashable (PList xs) = False"
| "hashable (PDict kvs) = False"
| "hashable v = True"

text \<open>
  Equality of keys is Python's \<^verbatim>\<open>==\<close> on hashable values: booleans, integers and
  floats compare by their number (\<^verbatim>\<open>True == 1 == 1.0\<close>), everything else by structure.
\<close>

fun num_val :: "pyval \<Rightarrow> rat option" where
  "num_val (PBool b) = Some (if b then 1 else 0)"
| "num_val (PInt i) = Some (of_int i)"
| "num_val (PFloat r) = Some r"
| "num_val v = None"

definition py_eq :: "pyval \<Rightarrow> pyval \<Rightarrow> bool" where
  "py_eq a b =
     (case num_val a of
        Some x \<Rightarrow> (case num_val b of Some y \<Rightarrow> x = y | None \<Rightarrow> False)
      | None \<Rightarrow> (case num_val b of Some y \<Rightarrow> False | None \<Rightarrow> a = b))"

subsection \<open>Dictionaries\<close>

fun d_lookup :: "pyval \<Rightarrow> pydict \<Rightarrow> pyval option" where
  "d_lookup k [] = None"
| "d_lookup k ((k', v) # kvs) = (if py_eq k k' then Some v else d_lookup k kvs)"

text \<open>
  \<^verbatim>\<open>d[k] = v\<close>: an existing key keeps its place (and its key object) and takes the new
  value, a new key goes to the end.
\<close>

fun d_set :: "pyval \<Rightarrow> pyval \<Rightarrow> pydict \<Rightarrow> pydict" where
  "d_set k v [] = [(k, v)]"
| "d_set k v ((k', v') # kvs) =
     (if py_eq k k' then (k', v) # kvs else (k', v') # d_set k v kvs)"

text \<open>\<^verbatim>\<open>d.update(e)\<close> stores the items of \<^verbatim>\<open>e\<close> one after the other.\<close>

fun d_update :: "pydict \<Rightarrow> pydict \<Rightarrow> pydict" where
  "d_update d [] = d"
| "d_update d ((k, v) # e) = d_update (d_set k v d) e"

definition keys :: "pydict \<Rightarrow> pyval list" where
  "keys d = map fst d"

subsection \<open>Operations on values\<close>

text \<open>\<^verbatim>\<open>v[k]\<close> with a string \<^verbatim>\<open>k\<close>: only a dictionary can be subscripted by one.\<close>

fun py_getitem :: "pyval \<Rightarrow> string \<Rightarrow> error + pyval" where
  "py_getitem (PDict kvs) k =
     (case d_lookup (PStr k) kvs of None \<Rightarrow> Inl (KeyError k) | Some v \<Rightarrow> Inr v)"
| "py_getitem v k = Inl TypeError"

text \<open>\<^verbatim>\<open>v.get(k, default)\<close>: only a dictionary has the method.\<close>

fun py_get :: "pyval \<Rightarrow> string \<Rightarrow> pyval \<Rightarrow> error + pyval" where
  "py_get (PDict kvs) k dflt =
     (case d_lookup (PStr k) kvs of None \<Rightarrow> Inr dflt | Some v \<Rightarrow> Inr v)"
| "py_get v k dflt = Inl AttributeError"

text \<open>
  The characters of a string: a byte from 128 to 191 continues the character that the
  bytes before it began.
\<close>

definition is_continuation :: "char \<Rightarrow> bool" where
  "is_continuation c = (128 \<le> (of_char c :: nat) \<and> (of_char c :: nat) < 192)"

fun join_byte :: "char \<Rightarrow> string list \<Rightarrow> string list" where
  "join_byte c [] = [[c]]"
| "join_byte c ([] # ws) = [c] # ws"
| "join_byte c ((b # w) # ws) =
     (if is_continuation b then (c # b # w) # ws else [c] # (b # w) # ws)"

definition utf8_chars :: "string \<Rightarrow> string list" where
  "utf8_chars s = foldr join_byte s []"

text \<open>
  \<^verbatim>\<open>for x in v\<close>: a list gives its elements, a string its characters, a dictionary
  its keys; nothing else can be iterated.
\<close>

fun py_iter :: "pyval \<Rightarrow> error + pyval list" where
  "py_iter (PList xs) = Inr xs"
| "py_iter (PStr s) = Inr (map PStr (utf8_chars s))"
| "py_iter (PDict kvs) = Inr (keys kvs)"
| "py_iter v = Inl TypeError"

fun starts_with :: "string \<Rightarrow> string \<Rightarrow> bool" where
  "starts_with [] s = True"
| "starts_with (c # k) [] = False"
| "starts_with (c # k) (d # s) = (c = d \<and> starts_with k s)"

fun substring :: "string \<Rightarrow> string \<Rightarrow> bool" where
  "substring k [] = (k = [])"
| "substring k (c # s) = (starts_with k (c # s) \<or> substring k s)"

text \<open>\<^verbatim>\<open>k in v\<close> with a string \<^verbatim>\<open>k\<close>.\<close>

fun py_in :: "string \<Rightarrow> pyval \<Rightarrow> error + bool" where
  "py_in k (PDict kvs) = Inr (d_lookup (PStr k) kvs \<noteq> None)"
| "py_in k (PList xs) = Inr (PStr k \<in> set xs)"
| "py_in k (PStr s) = Inr (substring k s)"
| "py_in k v = Inl TypeError"

subsection \<open>String methods\<close>

text \<open>
  \<^verbatim>\<open>str.lower\<close> and \<^verbatim>\<open>str.title\<close> are Python's own. What they do with a character
  outside ASCII is in the Unicode tables of the interpreter, which are not part of the
  program: the two methods are parameters of the generator. On ASCII text they are the
  functions \<open>lower\<close> and \<open>title\<close> below, where the cased characters are the letters
  \<^verbatim>\<open>A-Z\<close> and \<^verbatim>\<open>a-z\<close>.
\<close>

record string_methods =
  str_lower :: "string \<Rightarrow> string"
  str_title :: "string \<Rightarrow> string"

definition is_upper :: "char \<Rightarrow> bool" where
  "is_upper c = (65 \<le> (of_char c :: nat) \<and> (of_char c :: nat) \<le> 90)"

definition is_lower :: "char \<Rightarrow> bool" where
  "is_lower c = (97 \<le> (of_char c :: nat) \<and> (of_char c :: nat) \<le> 122)"

definition to_lower :: "char \<Rightarrow> char" where
  "to_lower c = (if is_upper c then char_of ((of_char c :: nat) + 32) else c)"

definition to_upper :: "char \<Rightarrow> char" where
  "to_upper c = (if is_lower c then char_of ((of_char c :: nat) - 32) else c)"

definition lower :: "string \<Rightarrow> string" where
  "lower s = map to_lower s"

text \<open>\<^verbatim>\<open>s.replace('_', ' ')\<close>\<close>

definition replace_underscore :: "string \<Rightarrow> string" where
  "replace_underscore s = map (\<lambda>c. if c = CHR ''_'' then CHR '' '' else c) s"

text \<open>
  \<^verbatim>\<open>s.title()\<close> on ASCII text: a cased character is put in upper case when the
  character before it has no case (or there is none) and in lower case otherwise. The flag
  is CPython's \<^verbatim>\<open>previous_is_cased\<close>.
\<close>

fun title_from :: "bool \<Rightarrow> string \<Rightarrow> string" where
  "title_from prev [] = []"
| "title_from prev (c # s) =
     (if is_lower c then (if prev then c else to_upper c) # title_from True s
      else if is_upper c then (if prev then to_lower c else c) # title_from True s
      else c # title_from False s)"

definition title :: "string \<Rightarrow> string" where
  "title s = title_from False s"

text \<open>
  The two methods on ASCII text, and what is known of the interpreter's methods: on ASCII
  text they are these.
\<close>

definition ascii_strings :: string_methods where
  "ascii_strings = \<lparr>str_lower = lower, str_title = title\<rparr>"

definition is_ascii :: "string \<Rightarrow> bool" where
  "is_ascii s = list_all (\<lambda>c. (of_char c :: nat) < 128) s"

definition ascii_faithful :: "string_methods \<Rightarrow> bool" where
  "ascii_faithful sm =
     (\<forall>s. is_ascii s \<longrightarrow> str_lower sm s = lower s \<and> str_title sm s = title s)"

section \<open>The generator\<close>

text \<open>
  An exception ends the run: every function that can raise returns \<open>error + 'a\<close>, and
  \<open>and_then\<close> passes the first error on. A \<^verbatim>\<open>for\<close> loop over a list that updates local
  state is \<open>for_each\<close>. A dictionary literal with string keys is \<open>obj\<close>.
\<close>

definition and_then :: "error + 'a \<Rightarrow> ('a \<Rightarrow> error + 'b) \<Rightarrow> error + 'b" where
  "and_then m f = (case m of Inl e \<Rightarrow> Inl e | Inr x \<Rightarrow> f x)"

fun for_each :: "('s \<Rightarrow> pyval \<Rightarrow> error + 's) \<Rightarrow> 's \<Rightarrow> pyval list \<Rightarrow> error + 's" where
  "for_each body st [] = Inr st"
| "for_each body st (x # xs) = and_then (body st x) (\<lambda>st'. for_each body st' xs)"

definition obj :: "(string \<times> pyval) list \<Rightarrow> pyval" where
  "obj kvs = PDict (map (\<lambda>(k, v). (PStr k, v)) kvs)"

subsection \<open>The fixed tables\<close>

text \<open>\<^verbatim>\<open>_map_data_type\<close>, lines 240 to 256. A leading underscore is dropped from every name.\<close>

definition type_mapping :: pydict where
  "type_mapping =
     [(PStr ''uuid'', obj [(''type'', PStr ''string''), (''format'', PStr ''uuid'')]),
      (PStr ''email'', obj [(''type'', PStr ''string''), (''format'', PStr ''email'')]),
      (PStr ''phone'', obj [(''type'', PStr ''string''), (''format'', PStr ''phone'')]),
      (PStr ''currency'', obj [(''type'', PStr ''number''), (''format'', PStr ''decimal'')]),
      (PStr ''datetime'', obj [(''type'', PStr ''string''), (''format'', PStr ''date-time'')]),
      (PStr ''date'', obj [(''type'', PStr ''string''), (''format'', PStr ''date'')]),
      (PStr ''enum'', obj [(''type'', PStr ''string'')]),
      (PStr ''boolean'', obj [(''type'', PStr ''boolean'')]),
      (PStr ''integer'', obj [(''type'', PStr ''integer'')]),
      (PStr ''float'', obj [(''type'', PStr ''number''), (''format'', PStr ''float'')]),
      (PStr ''string'', obj [(''type'', PStr ''string'')])]"

text \<open>\<^verbatim>\<open>table.get(key, default)\<close> hashes the key first.\<close>

definition table_get :: "pydict \<Rightarrow> pyval \<Rightarrow> pyval \<Rightarrow> error + pyval" where
  "table_get table k dflt =
     (if \<not> hashable k then Inl TypeError
      else Inr (case d_lookup k table of None \<Rightarrow> dflt | Some v \<Rightarrow> v))"

definition map_data_type :: "pyval \<Rightarrow> error + pyval" where
  "map_data_type data_type =
     table_get type_mapping data_type (obj [(''type'', PStr ''string'')])"

text \<open>\<^verbatim>\<open>_generate_example_value\<close>, lines 258 to 273.\<close>

definition examples :: pydict where
  "examples =
     [(PStr ''uuid'', PStr ''123e4567-e89b-12d3-a456-426614174000''),
      (PStr ''email'', PStr ''user@example.com''),
      (PStr ''phone'', PStr ''+1-555-123-4567''),
      (PStr ''currency'', PFloat (9999 / 100)),
      (PStr ''datetime'', PStr ''2023-11-23T10:30:00Z''),
      (PStr ''date'', PStr ''2023-11-23''),
      (PStr ''boolean'', PBool True),
      (PStr ''integer'', PInt 42),
      (PStr ''float'', PFloat (314 / 100)),
      (PStr ''string'', PStr ''example value'')]"

definition generate_example_value :: "pyval \<Rightarrow> error + pyval" where
  "generate_example_value data_type = table_get examples data_type (PStr ''example'')"

text \<open>\<^verbatim>\<open>_generate_standard_responses\<close>, lines 203 to 238.\<close>

definition error_response :: "string \<Rightarrow> pyval" where
  "error_response description =
     obj [(''description'', PStr description),
          (''content'', obj [(''application/json'',
             obj [(''schema'', obj [(''$ref'', PStr ''#/components/schemas/Error'')])])])]"

definition generate_standard_responses :: pyval where
  "generate_standard_responses =
     obj [(''BadRequest'', error_response ''Bad request''),
          (''Unauthorized'', error_response ''Authentication required''),
          (''Forbidden'', error_response ''Access denied''),
          (''NotFound'', error_response ''Resource not found'')]"

subsection \<open>Schemas\<close>

text \<open>
  \<^verbatim>\<open>_generate_entity_schema\<close>, lines 86 to 121. The loop mutates
  \<^verbatim>\<open>schema['properties']\<close> and \<^verbatim>\<open>schema['required']\<close>; its state is that pair.
  \<open>generate_property\<close> is lines 95 to 112 of the loop body, in the order the source
  evaluates: the property is stored under the attribute's name (which hashes the name)
  and then takes its format and its constraint. It returns the name and the finished
  property. \<open>schema_step\<close> stores it and does lines 114 and 115.
\<close>

definition add_format :: "pyval \<Rightarrow> pydict \<Rightarrow> error + pydict" where
  "add_format openapi_type prop =
     and_then (py_in ''format'' openapi_type) (\<lambda>has_format.
       if has_format
       then and_then (py_getitem openapi_type ''format'') (\<lambda>f.
              Inr (d_set (PStr ''format'') f prop))
       else Inr prop)"

definition add_constraints :: "pyval \<Rightarrow> pydict \<Rightarrow> error + pydict" where
  "add_constraints attr prop =
     and_then (py_get attr ''max_length'' PNone) (\<lambda>ml.
       if truthy ml
       then and_then (py_getitem attr ''max_length'') (\<lambda>m.
              Inr (d_set (PStr ''maxLength'') m prop))
       else Inr prop)"

definition generate_property :: "pyval \<Rightarrow> error + pyval \<times> pydict" where
  "generate_property attr =
     and_then (py_getitem attr ''name'') (\<lambda>attr_name.
     and_then (py_getitem attr ''type'') (\<lambda>attr_type.
     and_then (map_data_type attr_type) (\<lambda>openapi_type.
     and_then (py_getitem openapi_type ''type'') (\<lambda>ty.
     and_then (py_get attr ''description'' (PStr [])) (\<lambda>description.
     and_then (generate_example_value attr_type) (\<lambda>example.
     if \<not> hashable attr_name then Inl TypeError
     else
       and_then (add_format openapi_type
         [(PStr ''type'', ty), (PStr ''description'', description),
          (PStr ''example'', example)]) (\<lambda>prop.
       and_then (add_constraints attr prop) (\<lambda>prop'.
         Inr (attr_name, prop')))))))))"

definition schema_step :: "pydict \<times> pyval list \<Rightarrow> pyval \<Rightarrow> error + pydict \<times> pyval list" where
  "schema_step st attr =
     and_then (generate_property attr) (\<lambda>(attr_name, prop).
     and_then (py_get attr ''required'' (PBool False)) (\<lambda>r.
       Inr (d_set attr_name (PDict prop) (fst st),
            if truthy r then snd st @ [attr_name] else snd st)))"

definition generate_entity_schema :: "pyval \<Rightarrow> error + pyval" where
  "generate_entity_schema entity =
     and_then (py_get entity ''attributes'' (PList [])) (\<lambda>attributes.
     and_then (py_iter attributes) (\<lambda>attrs.
     and_then (for_each schema_step ([], []) attrs) (\<lambda>(properties, required).
     and_then (py_in ''taxonomy_classification'' entity) (\<lambda>classified.
       let schema = [(PStr ''type'', PStr ''object''),
                     (PStr ''properties'', PDict properties),
                     (PStr ''required'', PList required)]
       in if classified
          then and_then (py_getitem entity ''taxonomy_classification'') (\<lambda>tc.
                 Inr (PDict (d_set (PStr ''x-taxonomy'') tc schema)))
          else Inr (PDict schema)))))"

subsection \<open>Paths\<close>

text \<open>\<^verbatim>\<open>_generate_entity_paths\<close>, lines 123 to 201.\<close>

definition base_path :: "string \<Rightarrow> string" where
  "base_path schema_name = ''/'' @ schema_name @ ''s''"

definition entity_path :: "string \<Rightarrow> string" where
  "entity_path schema_name = base_path schema_name @ ''/{'' @ schema_name @ ''Id}''"

definition json_content :: "pyval \<Rightarrow> pyval" where
  "json_content schema = obj [(''application/json'', obj [(''schema'', schema)])]"

definition ref :: "string \<Rightarrow> pyval" where
  "ref name = obj [(''$ref'', PStr (''#/components/schemas/'' @ name))]"

definition collection_item :: "string \<Rightarrow> pyval" where
  "collection_item entity_name =
     obj [(''get'',
           obj [(''summary'', PStr (''List '' @ entity_name @ ''s'')),
                (''operationId'', PStr (''list'' @ entity_name @ ''s'')),
                (''responses'',
                 obj [(''200'',
                       obj [(''description'', PStr ''Successful response''),
                            (''content'',
                             json_content
                               (obj [(''type'', PStr ''object''),
                                     (''properties'',
                                      obj [(''data'',
                                            obj [(''type'', PStr ''array''),
                                                 (''items'', ref entity_name)])])]))])])]),
          (''post'',
           obj [(''summary'', PStr (''Create '' @ entity_name)),
                (''operationId'', PStr (''create'' @ entity_name)),
                (''requestBody'',
                 obj [(''required'', PBool True),
                      (''content'', json_content (ref (''Create'' @ entity_name @ ''Request'')))]),
                (''responses'',
                 obj [(''201'',
                       obj [(''description'', PStr (entity_name @ '' created successfully'')),
                            (''content'', json_content (ref (entity_name @ ''Response'')))])])])]"

definition single_item :: "string \<Rightarrow> string \<Rightarrow> pyval" where
  "single_item entity_name schema_name =
     obj [(''get'',
           obj [(''summary'', PStr (''Get '' @ entity_name)),
                (''operationId'', PStr (''get'' @ entity_name)),
                (''parameters'',
                 PList [obj [(''name'', PStr (schema_name @ ''Id'')),
                             (''in'', PStr ''path''),
                             (''required'', PBool True),
                             (''schema'',
                              obj [(''type'', PStr ''string''), (''format'', PStr ''uuid'')])]]),
                (''responses'',
                 obj [(''200'',
                       obj [(''description'', PStr ''Successful response''),
                            (''content'', json_content (ref (entity_name @ ''Response'')))])])])]"

text \<open>
  The dictionary literal of line 128 stores \<^verbatim>\<open>base_path\<close> and then
  \<^verbatim>\<open>entity_path\<close>.
\<close>

definition generate_entity_paths :: "string \<Rightarrow> string \<Rightarrow> pydict" where
  "generate_entity_paths entity_name schema_name =
     d_set (PStr (entity_path schema_name)) (single_item entity_name schema_name)
       (d_set (PStr (base_path schema_name)) (collection_item entity_name) [])"

subsection \<open>Compliance requirements\<close>

text \<open>
  \<^verbatim>\<open>_extract_compliance_requirements\<close>, lines 275 to 282. The set is the list of its
  elements in the order they were first added. \<^verbatim>\<open>list(compliance)\<close> walks the hash
  table, in an order that depends on the hashes of the elements, and the hash of a string
  changes from one interpreter process to the next: \<open>set_order\<close> is that order, a
  parameter of the run.
\<close>

definition set_add :: "pyval \<Rightarrow> pyval list \<Rightarrow> pyval list" where
  "set_add x s = (if \<exists>y \<in> set s. py_eq x y then s else s @ [x])"

fun set_update :: "pyval list \<Rightarrow> pyval list \<Rightarrow> error + pyval list" where
  "set_update s [] = Inr s"
| "set_update s (x # xs) =
     (if \<not> hashable x then Inl TypeError else set_update (set_add x s) xs)"

definition compliance_step :: "pyval list \<Rightarrow> pyval \<Rightarrow> error + pyval list" where
  "compliance_step compliance entity =
     and_then (py_in ''taxonomy_classification'' entity) (\<lambda>classified.
       if classified
       then and_then (py_getitem entity ''taxonomy_classification'') (\<lambda>tc.
            and_then (py_get tc ''compliance'' (PList [])) (\<lambda>cl.
            and_then (py_iter cl) (\<lambda>items. set_update compliance items)))
       else Inr compliance)"

definition extract_compliance_requirements ::
    "(pyval list \<Rightarrow> pyval list) \<Rightarrow> pyval \<Rightarrow> error + pyval" where
  "extract_compliance_requirements set_order entities =
     and_then (py_iter entities) (\<lambda>es.
     and_then (for_each compliance_step [] es) (\<lambda>compliance.
       Inr (PList (set_order compliance))))"

subsection \<open>The document\<close>

text \<open>
  \<^verbatim>\<open>generate_from_model\<close>, lines 35 to 84: the document made from the loaded model.
  \<open>entity_step\<close> is the loop body, lines 66 to 74; the loop mutates
  \<^verbatim>\<open>openapi_spec['components']['schemas']\<close> and \<^verbatim>\<open>openapi_spec['paths']\<close>, and
  its state is that pair. Only a string has \<^verbatim>\<open>replace\<close> and \<^verbatim>\<open>lower\<close>. The
  first argument holds \<^verbatim>\<open>str.lower\<close> and \<^verbatim>\<open>str.title\<close>.
\<close>

definition entity_step ::
    "string_methods \<Rightarrow> pydict \<times> pydict \<Rightarrow> pyval \<Rightarrow> error + pydict \<times> pydict" where
  "entity_step sm st entity =
     and_then (py_getitem entity ''name'') (\<lambda>name.
       case name of
         PStr entity_name \<Rightarrow>
           and_then (generate_entity_schema entity) (\<lambda>schema.
             Inr (d_set (PStr entity_name) schema (fst st),
                  d_update (snd st)
                    (generate_entity_paths entity_name (str_lower sm entity_name))))
       | _ \<Rightarrow> Inl AttributeError)"

definition api_title :: "string_methods \<Rightarrow> pyval \<Rightarrow> error + pyval" where
  "api_title sm domain =
     (case domain of
        PStr d \<Rightarrow> Inr (PStr (str_title sm (replace_underscore d) @ '' API''))
      | _ \<Rightarrow> Inl AttributeError)"

definition openapi_spec :: "pyval \<Rightarrow> pyval \<Rightarrow> pyval \<Rightarrow> pydict \<Rightarrow> pydict \<Rightarrow> pydict" where
  "openapi_spec title_v version description paths schemas =
     [(PStr ''openapi'', PStr ''3.0.3''),
      (PStr ''info'',
       obj [(''title'', title_v),
            (''version'', version),
            (''description'', description),
            (''contact'',
             obj [(''name'', PStr ''API Development Team''),
                  (''email'', PStr ''api@empathyfirstmedia.com'')])]),
      (PStr ''servers'',
       PList [obj [(''url'', PStr ''https://api.empathyfirstmedia.com/v1''),
                   (''description'', PStr ''Production server'')]]),
      (PStr ''paths'', PDict paths),
      (PStr ''components'',
       obj [(''schemas'', PDict schemas),
            (''responses'', generate_standard_responses)])]"

definition add_taxonomy ::
    "(pyval list \<Rightarrow> pyval list) \<Rightarrow> pyval \<Rightarrow> pyval \<Rightarrow> pyval \<Rightarrow> pydict \<Rightarrow> error + pyval" where
  "add_taxonomy set_order taxonomy model_info entities spec =
     (if truthy taxonomy
      then and_then (py_get model_info ''domain'' PNone) (\<lambda>domain.
           and_then (py_get model_info ''version'' PNone) (\<lambda>version.
           and_then (extract_compliance_requirements set_order entities) (\<lambda>compliance.
             Inr (PDict (d_set (PStr ''x-taxonomy'')
                    (obj [(''domain'', domain), (''version'', version),
                          (''compliance'', compliance)]) spec)))))
      else Inr (PDict spec))"

definition build_spec ::
    "string_methods \<Rightarrow> (pyval list \<Rightarrow> pyval list) \<Rightarrow> pyval \<Rightarrow> pyval \<Rightarrow> error + pyval" where
  "build_spec sm set_order taxonomy model =
     and_then (py_get model ''model'' (PDict [])) (\<lambda>model_info.
     and_then (py_get model ''entities'' (PList [])) (\<lambda>entities.
     and_then (py_get model_info ''domain'' (PStr ''API'')) (\<lambda>domain.
     and_then (api_title sm domain) (\<lambda>title_v.
     and_then (py_get model_info ''version'' (PStr ''1.0.0'')) (\<lambda>version.
     and_then (py_get model_info ''description'' (PStr [])) (\<lambda>description.
     and_then (py_iter entities) (\<lambda>es.
     and_then (for_each (entity_step sm) ([], []) es) (\<lambda>(schemas, paths).
       add_taxonomy set_order taxonomy model_info entities
         (openapi_spec title_v version description paths schemas)))))))))"

section \<open>Files and the command line\<close>

text \<open>
  The file system is the text of each file and the set of directories. What the libraries,
  the interpreter and the operating system do is a parameter of the run:
  \<^item> \<^verbatim>\<open>json.load\<close>, \<open>None\<close> when the text is not JSON;
  \<^item> \<^verbatim>\<open>yaml.dump\<close> into the open file: the text that reached the file, and the error
    when the dump or a write raised before the end;
  \<^item> \<^verbatim>\<open>mkdir(parents=True, exist_ok=True)\<close>: the file system it leaves, and the error
    when it raised;
  \<^item> whether the operating system refuses to open a path for writing;
  \<^item> \<^verbatim>\<open>print\<close>, which raises when the standard output cannot encode the line;
  \<^item> the iteration order of a set, and the string methods.
\<close>

type_synonym path = string

record filesystem =
  files :: "path \<rightharpoonup> string"
  dirs :: "path set"

record runtime =
  json_load :: "string \<Rightarrow> pyval option"
  yaml_dump :: "pyval \<Rightarrow> string \<times> error option"
  mkdir_parents :: "filesystem \<Rightarrow> path \<Rightarrow> filesystem \<times> error option"
  open_refused :: "filesystem \<Rightarrow> path \<Rightarrow> bool"
  print_line :: "string \<Rightarrow> error option"
  set_order :: "pyval list \<Rightarrow> pyval list"
  strings :: string_methods

text \<open>\<^verbatim>\<open>with open(p, 'r') as f: json.load(f)\<close>\<close>

definition read_json :: "runtime \<Rightarrow> filesystem \<Rightarrow> path \<Rightarrow> error + pyval" where
  "read_json rt fs p =
     (case files fs p of
        None \<Rightarrow> Inl (if p \<in> dirs fs then OSError else FileNotFoundError)
      | Some text \<Rightarrow>
          (case json_load rt text of None \<Rightarrow> Inl JSONDecodeError | Some v \<Rightarrow> Inr v))"

definition path_exists :: "filesystem \<Rightarrow> path \<Rightarrow> bool" where
  "path_exists fs p = (files fs p \<noteq> None \<or> p \<in> dirs fs)"

record generator =
  taxonomy :: pyval

text \<open>\<^verbatim>\<open>OpenAPIGenerator.__init__\<close>, lines 22 to 26.\<close>

definition init :: "runtime \<Rightarrow> filesystem \<Rightarrow> path option \<Rightarrow> error + generator" where
  "init rt fs taxonomy_file =
     (case taxonomy_file of
        None \<Rightarrow> Inr \<lparr>taxonomy = PDict []\<rparr>
      | Some p \<Rightarrow>
          if p \<noteq> [] \<and> path_exists fs p
          then and_then (read_json rt fs p) (\<lambda>t. Inr \<lparr>taxonomy = t\<rparr>)
          else Inr \<lparr>taxonomy = PDict []\<rparr>)"

text \<open>\<^verbatim>\<open>generate_from_model\<close>, lines 28 to 84.\<close>

definition generate_from_model ::
    "runtime \<Rightarrow> filesystem \<Rightarrow> generator \<Rightarrow> path \<Rightarrow> error + pyval" where
  "generate_from_model rt fs self model_file =
     and_then (read_json rt fs model_file) (\<lambda>model.
       build_spec (strings rt) (set_order rt) (taxonomy self) model)"

text \<open>
  \<^verbatim>\<open>main\<close>, lines 285 to 304, after \<^verbatim>\<open>parse_args\<close>. An exception that nothing
  catches ends the process with status 1.
\<close>

record args =
  arg_model :: path
  arg_taxonomy :: "path option"
  arg_output :: path

text \<open>
  Lines 298 to 302. The parent directories are made; the file is opened for writing, which
  fails on a directory and where the operating system refuses, and otherwise creates the
  file or empties it; the document is dumped into the file, which then holds what the dump
  wrote, all of it or the part before an error. The result is the file system left behind
  and the error, if any.
\<close>

definition write_output ::
    "runtime \<Rightarrow> filesystem \<Rightarrow> path \<Rightarrow> pyval \<Rightarrow> filesystem \<times> error option" where
  "write_output rt fs output_path spec =
     (case mkdir_parents rt fs output_path of
        (fs', Some e) \<Rightarrow> (fs', Some e)
      | (fs', None) \<Rightarrow>
          if output_path \<in> dirs fs' \<or> open_refused rt fs' output_path then (fs', Some OSError)
          else (case yaml_dump rt spec of
                  (text, e) \<Rightarrow> (fs'\<lparr>files := (files fs')(output_path \<mapsto> text)\<rparr>, e)))"

text \<open>
  Line 304 prints a line that begins with the character U+2705, which is not ASCII.
\<close>

definition check_mark :: string where
  "check_mark = [char_of (226 :: nat), char_of (156 :: nat), char_of (133 :: nat)]"

definition success_message :: "path \<Rightarrow> string" where
  "success_message output_path =
     check_mark @ '' OpenAPI specification generated: '' @ output_path"

text \<open>
  The result is the exit status and the file system the run leaves. A run that fails
  before line 298 leaves the file system as it was. What is printed is not kept.
\<close>

definition main :: "runtime \<Rightarrow> args \<Rightarrow> filesystem \<Rightarrow> nat \<times> filesystem" where
  "main rt a fs =
     (case init rt fs (arg_taxonomy a) of
        Inl e \<Rightarrow> (1, fs)
      | Inr generator \<Rightarrow>
          (case generate_from_model rt fs generator (arg_model a) of
             Inl e \<Rightarrow> (1, fs)
           | Inr spec \<Rightarrow>
               (case write_output rt fs (arg_output a) spec of
                  (fs', Some e) \<Rightarrow> (1, fs')
                | (fs', None) \<Rightarrow>
                    (case print_line rt (success_message (arg_output a)) of
                       Some e \<Rightarrow> (1, fs')
                     | None \<Rightarrow> (0, fs')))))"

section \<open>Reading documents and models\<close>

text \<open>\<^verbatim>\<open>v[k1][k2]...\<close>, and the keys of the dictionary found there.\<close>

fun path_get :: "pyval \<Rightarrow> string list \<Rightarrow> error + pyval" where
  "path_get v [] = Inr v"
| "path_get v (k # ks) = and_then (py_getitem v k) (\<lambda>w. path_get w ks)"

definition keys_at :: "pyval \<Rightarrow> string list \<Rightarrow> error + pyval list" where
  "keys_at v ks =
     and_then (path_get v ks) (\<lambda>w. case w of PDict kvs \<Rightarrow> Inr (keys kvs) | _ \<Rightarrow> Inl TypeError)"

definition result_at :: "error + pyval \<Rightarrow> string list \<Rightarrow> error + pyval" where
  "result_at r ks = and_then r (\<lambda>d. path_get d ks)"

definition result_keys_at :: "error + pyval \<Rightarrow> string list \<Rightarrow> error + pyval list" where
  "result_keys_at r ks = and_then r (\<lambda>d. keys_at d ks)"

text \<open>The entities of a model and the attributes of an entity, as the loops read them.\<close>

definition model_entities :: "pyval \<Rightarrow> error + pyval list" where
  "model_entities model = and_then (py_get model ''entities'' (PList [])) py_iter"

definition entity_attributes :: "pyval \<Rightarrow> error + pyval list" where
  "entity_attributes entity = and_then (py_get entity ''attributes'' (PList [])) py_iter"

text \<open>
  The compliance values of one entity, as line 280 reads them: nothing when the entity has
  no \<^verbatim>\<open>taxonomy_classification\<close>.
\<close>

definition entity_compliance :: "pyval \<Rightarrow> pyval list" where
  "entity_compliance entity =
     (case py_getitem entity ''taxonomy_classification'' of
        Inl e \<Rightarrow> []
      | Inr tc \<Rightarrow>
          (case and_then (py_get tc ''compliance'' (PList [])) py_iter of
             Inl e \<Rightarrow> []
           | Inr items \<Rightarrow> items))"



text \<open>
  All the compliance values of a list of entities, with repetitions; a list in which no
  two elements are equal, which is what a set holds; and an iteration order of sets that
  neither loses nor invents an element.
\<close>

definition all_compliance :: "pyval list \<Rightarrow> pyval list" where
  "all_compliance es = concat (map entity_compliance es)"

definition no_equal_pair :: "pyval list \<Rightarrow> bool" where
  "no_equal_pair xs = (distinct xs \<and> (\<forall>x \<in> set xs. \<forall>y \<in> set xs. py_eq x y \<longrightarrow> x = y))"

definition keeps_elements :: "(pyval list \<Rightarrow> pyval list) \<Rightarrow> bool" where
  "keeps_elements order = (\<forall>xs. mset (order xs) = mset xs)"

definition is_string :: "pyval \<Rightarrow> bool" where
  "is_string v = (case v of PStr s \<Rightarrow> True | _ \<Rightarrow> False)"

text \<open>Lines 294 and 295 of \<^verbatim>\<open>main\<close>: the generator is made and asked for the document.\<close>

definition generate :: "runtime \<Rightarrow> filesystem \<Rightarrow> path option \<Rightarrow> path \<Rightarrow> error + pyval" where
  "generate rt fs taxonomy_file model_file =
     and_then (init rt fs taxonomy_file) (\<lambda>generator.
       generate_from_model rt fs generator model_file)"

text \<open>Every string that occurs in a value, as a key or as a value, at any depth.\<close>

fun strings_of :: "pyval \<Rightarrow> string list" where
  "strings_of (PStr s) = [s]"
| "strings_of (PList xs) = concat (map strings_of xs)"
| "strings_of (PDict kvs) = concat (map (\<lambda>(k, v). strings_of k @ strings_of v) kvs)"
| "strings_of v = []"

definition result_strings :: "error + pyval \<Rightarrow> string list" where
  "result_strings r = (case r of Inl e \<Rightarrow> [] | Inr d \<Rightarrow> strings_of d)"

text \<open>
  The data model types \<^verbatim>\<open>required\<close> as a boolean: the field, where an attribute
  has it, holds \<^verbatim>\<open>true\<close> or \<^verbatim>\<open>false\<close>.
\<close>

definition required_is_boolean :: "pyval \<Rightarrow> bool" where
  "required_is_boolean attr =
     (case py_getitem attr ''required'' of
        Inl e \<Rightarrow> True
      | Inr v \<Rightarrow> (case v of PBool b \<Rightarrow> True | _ \<Rightarrow> False))"

section \<open>The example scenario of the specification\<close>

definition example_user :: pyval where
  "example_user =
     obj [(''name'', PStr ''User''),
          (''attributes'',
           PList [obj [(''name'', PStr ''id''), (''type'', PStr ''uuid''),
                       (''required'', PBool True)],
                  obj [(''name'', PStr ''email''), (''type'', PStr ''email''),
                       (''required'', PBool True)]])]"

definition example_model :: pyval where
  "example_model =
     obj [(''model'', obj [(''domain'', PStr ''user_account''), (''version'', PStr ''2.0.0'')]),
          (''entities'', PList [example_user])]"

text \<open>
  A run to try the command line on: \<^verbatim>\<open>json.load\<close> knows the text \<^verbatim>\<open>M\<close> (the model
  above) and the text \<^verbatim>\<open>T\<close> (a taxonomy with two entries), a set is walked in the
  order of insertion, the directory of the output can always be made, no path is refused,
  the dump and the print succeed, and the names are ASCII. Two more runs differ from it in
  one fault each: a dump that raises before it writes anything, and a standard output that
  cannot encode the line of line 304.
\<close>

definition example_taxonomy :: pyval where
  "example_taxonomy =
     obj [(''levels'', PList [PStr ''public'', PStr ''restricted'']),
          (''owner'', PStr ''data-office'')]"

definition example_runtime :: runtime where
  "example_runtime =
     \<lparr>json_load = (\<lambda>text. if text = ''M'' then Some example_model
                         else if text = ''T'' then Some example_taxonomy else None),
      yaml_dump = (\<lambda>spec. (''openapi: 3.0.3'', None)),
      mkdir_parents = (\<lambda>fs p. (fs, None)),
      open_refused = (\<lambda>fs p. False),
      print_line = (\<lambda>line. None),
      set_order = (\<lambda>xs. xs),
      strings = ascii_strings\<rparr>"

definition failing_dump_runtime :: runtime where
  "failing_dump_runtime = example_runtime\<lparr>yaml_dump := (\<lambda>spec. ([], Some OSError))\<rparr>"

definition ascii_stdout_runtime :: runtime where
  "ascii_stdout_runtime =
     example_runtime\<lparr>print_line :=
       (\<lambda>line. if is_ascii line then None else Some UnicodeEncodeError)\<rparr>"

definition example_files :: filesystem where
  "example_files =
     \<lparr>files = [''models/user.model.json'' \<mapsto> ''M'', ''taxonomy.json'' \<mapsto> ''T'',
               ''models/broken.json'' \<mapsto> ''{''],
      dirs = {''models''}\<rparr>"

section \<open>Values, dictionaries and errors\<close>

lemma py_eq_PStr [simp]: "py_eq (PStr a) k \<longleftrightarrow> k = PStr a"
  by (cases k) (auto simp: py_eq_def)

lemma py_eq_PStr2 [simp]: "py_eq k (PStr a) \<longleftrightarrow> k = PStr a"
  by (cases k) (auto simp: py_eq_def)

lemma py_eq_refl [simp]: "py_eq x x"
  by (cases x) (auto simp: py_eq_def)

lemma d_lookup_str: "d_lookup (PStr a) d = map_of d (PStr a)"
  by (induction d) auto

lemma keys_d_set_str:
  "keys (d_set (PStr a) v d) = (if PStr a \<in> set (keys d) then keys d else keys d @ [PStr a])"
  by (induction d) (force simp: keys_def)+

lemma map_of_d_set_str: "map_of (d_set (PStr a) v d) = (map_of d)(PStr a \<mapsto> v)"
  by (induction d) (auto simp: fun_eq_iff)

lemma and_then_Inr_iff:
  "and_then m f = Inr y \<longleftrightarrow> (\<exists>x. m = Inr x \<and> f x = Inr y)"
  by (cases m) (auto simp: and_then_def)

lemma and_then_Inr [simp]: "and_then (Inr x) f = f x"
  by (simp add: and_then_def)

lemma and_then_Inl [simp]: "and_then (Inl e) f = Inl e"
  by (simp add: and_then_def)

lemma not_isl_obtain: "\<not> isl r \<Longrightarrow> \<exists>x. r = Inr x"
  by (cases r) auto

section \<open>Properties of one attribute\<close>








section \<open>The schema of an entity\<close>

lemma schema_step_required:
  assumes "schema_step (ps, rq) attr = Inr (ps', rq')"
  shows "\<exists>n r. py_getitem attr ''name'' = Inr n \<and>
           py_get attr ''required'' (PBool False) = Inr r \<and>
           rq' = (if truthy r then rq @ [n] else rq)"
  using assms
  by (auto simp: schema_step_def generate_property_def and_then_Inr_iff split: if_splits)

lemma for_each_schema_required:
  "for_each schema_step (ps, rq) attrs = Inr (ps', rq') \<Longrightarrow>
   map Inr rq' = map Inr rq @ map (\<lambda>a. py_getitem a ''name'')
     (filter (\<lambda>a. \<exists>r. py_get a ''required'' (PBool False) = Inr r \<and> truthy r) attrs)"
proof (induction attrs arbitrary: ps rq)
  case Nil
  then show ?case by simp
next
  case (Cons a attrs)
  from Cons.prems obtain st where st: "schema_step (ps, rq) a = Inr st"
    and rest: "for_each schema_step st attrs = Inr (ps', rq')"
    by (auto simp: and_then_Inr_iff)
  obtain ps1 rq1 where st1: "st = (ps1, rq1)" by (cases st)
  from schema_step_required[OF st[unfolded st1]] obtain n r where
    n: "py_getitem a ''name'' = Inr n" and r: "py_get a ''required'' (PBool False) = Inr r"
    and rq1: "rq1 = (if truthy r then rq @ [n] else rq)" by blast
  from Cons.IH[OF rest[unfolded st1]] show ?case
    using n r rq1 by auto
qed

lemma required_bool_iff:
  assumes "required_is_boolean a"
  shows "(\<exists>r. py_get a ''required'' (PBool False) = Inr r \<and> truthy r)
         \<longleftrightarrow> py_getitem a ''required'' = Inr (PBool True)"
  using assms
  by (cases a) (auto simp: required_is_boolean_def split: option.splits pyval.splits)

section \<open>The claims about attributes\<close>

text \<open>
  C3. The \<^verbatim>\<open>required\<close> array of an entity's schema holds exactly the names of the
  attributes whose \<^verbatim>\<open>required\<close> field is \<^verbatim>\<open>true\<close>, in the order the attributes are
  declared: it is the list of attributes filtered by that field and mapped to their names.
  The \<^verbatim>\<open>required\<close> fields are booleans, as the data model types them.
\<close>

theorem required_lists_required_attributes:
  assumes "generate_entity_schema entity = Inr schema"
    and "entity_attributes entity = Inr attrs"
    and "list_all required_is_boolean attrs"
  shows "\<exists>req. path_get schema [''required''] = Inr (PList req) \<and>
           map Inr req = map (\<lambda>a. py_getitem a ''name'')
             (filter (\<lambda>a. py_getitem a ''required'' = Inr (PBool True)) attrs)"
proof -
  from assms(1,2) obtain ps rq where
    loop: "for_each schema_step ([], []) attrs = Inr (ps, rq)"
    and schema: "path_get schema [''required''] = Inr (PList rq)"
    by (auto simp: generate_entity_schema_def entity_attributes_def and_then_Inr_iff
          d_lookup_str map_of_d_set_str Let_def split: if_splits)
  have "filter (\<lambda>a. \<exists>r. py_get a ''required'' (PBool False) = Inr r \<and> truthy r) attrs
        = filter (\<lambda>a. py_getitem a ''required'' = Inr (PBool True)) attrs"
    using assms(3) by (intro filter_cong refl required_bool_iff) (simp add: list_all_iff)
  with for_each_schema_required[OF loop] schema show ?thesis by auto
qed

theorem required_lists_required_attributes_witness:
  "list_all required_is_boolean
     [obj [(''name'', PStr ''id''), (''type'', PStr ''uuid''), (''required'', PBool True)],
      obj [(''name'', PStr ''note''), (''type'', PStr ''string''), (''required'', PBool False)],
      obj [(''name'', PStr ''email''), (''type'', PStr ''email''), (''required'', PBool True)],
      obj [(''name'', PStr ''age''), (''type'', PStr ''integer'')]] \<and>
   result_at
     (generate_entity_schema (obj [(''name'', PStr ''User''), (''attributes'', PList
       [obj [(''name'', PStr ''id''), (''type'', PStr ''uuid''), (''required'', PBool True)],
        obj [(''name'', PStr ''note''), (''type'', PStr ''string''), (''required'', PBool False)],
        obj [(''name'', PStr ''email''), (''type'', PStr ''email''), (''required'', PBool True)],
        obj [(''name'', PStr ''age''), (''type'', PStr ''integer'')]])]))
     [''required'']
   = Inr (PList [PStr ''id'', PStr ''email''])"
proof -
  let ?attrs =
    "[obj [(''name'', PStr ''id''), (''type'', PStr ''uuid''), (''required'', PBool True)],
      obj [(''name'', PStr ''note''), (''type'', PStr ''string''), (''required'', PBool False)],
      obj [(''name'', PStr ''email''), (''type'', PStr ''email''), (''required'', PBool True)],
      obj [(''name'', PStr ''age''), (''type'', PStr ''integer'')]]"
  let ?entity = "obj [(''name'', PStr ''User''), (''attributes'', PList ?attrs)]"
  have "\<not> isl (generate_entity_schema ?entity)" by code_simp
  then obtain schema where h1: "generate_entity_schema ?entity = Inr schema"
    using not_isl_obtain by blast
  have h2: "entity_attributes ?entity = Inr ?attrs" by code_simp
  have h3: "list_all required_is_boolean ?attrs" by code_simp
  from required_lists_required_attributes[OF h1 h2 h3] obtain req where
    req: "path_get schema [''required''] = Inr (PList req)"
    and names: "map Inr req = map (\<lambda>a. py_getitem a ''name'')
             (filter (\<lambda>a. py_getitem a ''required'' = Inr (PBool True)) ?attrs)" by blast
  have "map (\<lambda>a. py_getitem a ''name'')
          (filter (\<lambda>a. py_getitem a ''required'' = Inr (PBool True)) ?attrs)
        = map Inr [PStr ''id'', PStr ''email'']" by code_simp
  with names have "map Inr req = (map Inr [PStr ''id'', PStr ''email''] :: (error + pyval) list)"
    by simp
  then have "req = [PStr ''id'', PStr ''email'']"
    by (auto simp: map_eq_Cons_conv)
  with req h1 h3 show ?thesis by (simp add: result_at_def)
qed






section \<open>The properties of a schema\<close>

text \<open>
  Every entry of \<^verbatim>\<open>properties\<close> in the schema of an entity is the property that
  \<open>generate_property\<close> makes for one of the entity's attributes, stored under that
  attribute's name: what C4 and C5 say of the generated property holds of every property
  of every schema.
\<close>

lemma set_d_set:
  "(k', v') \<in> set (d_set k v d) \<Longrightarrow> (k', v') \<in> set d \<or> (v' = v \<and> py_eq k k')"
  by (induction d) (auto split: if_splits)

lemma d_lookup_d_set_same: "d_lookup k (d_set k v d) = Some v"
  by (induction d) auto

lemma schema_step_property:
  assumes "schema_step (ps, rq) attr = Inr (ps', rq')"
  shows "\<exists>n p. generate_property attr = Inr (n, p) \<and> ps' = d_set n (PDict p) ps"
  using assms by (auto simp: schema_step_def and_then_Inr_iff)

lemma for_each_schema_properties:
  "for_each schema_step (ps, rq) attrs = Inr (ps', rq') \<Longrightarrow> (k, v) \<in> set ps' \<Longrightarrow>
   (k, v) \<in> set ps \<or>
   (\<exists>a \<in> set attrs. \<exists>n p. generate_property a = Inr (n, p) \<and> v = PDict p \<and> py_eq n k)"
proof (induction attrs arbitrary: ps rq)
  case Nil
  then show ?case by simp
next
  case (Cons a attrs)
  from Cons.prems(1) obtain st where st: "schema_step (ps, rq) a = Inr st"
    and rest: "for_each schema_step st attrs = Inr (ps', rq')"
    by (auto simp: and_then_Inr_iff)
  obtain ps1 rq1 where st1: "st = (ps1, rq1)" by (cases st)
  from schema_step_property[OF st[unfolded st1]] obtain n p where
    gp: "generate_property a = Inr (n, p)" and ps1: "ps1 = d_set n (PDict p) ps" by blast
  from Cons.IH[OF rest[unfolded st1] Cons.prems(2)]
  show ?case
  proof
    assume "(k, v) \<in> set ps1"
    with set_d_set[of k v n "PDict p" ps] ps1 gp show ?thesis by auto
  next
    assume "\<exists>a \<in> set attrs. \<exists>n p. generate_property a = Inr (n, p) \<and> v = PDict p \<and> py_eq n k"
    then show ?thesis by auto
  qed
qed

lemma schema_properties_generated:
  assumes "generate_entity_schema entity = Inr schema"
    and "entity_attributes entity = Inr attrs"
  shows "\<exists>props. path_get schema [''properties''] = Inr (PDict props) \<and>
     (\<forall>(k, v) \<in> set props.
        \<exists>a \<in> set attrs. \<exists>n p. generate_property a = Inr (n, p) \<and> v = PDict p \<and> py_eq n k)"
proof -
  from assms obtain ps rq where
    loop: "for_each schema_step ([], []) attrs = Inr (ps, rq)"
    and schema: "path_get schema [''properties''] = Inr (PDict ps)"
    by (auto simp: generate_entity_schema_def entity_attributes_def and_then_Inr_iff
          d_lookup_str map_of_d_set_str Let_def split: if_splits)
  from for_each_schema_properties[OF loop] have
    "\<forall>(k, v) \<in> set ps.
        \<exists>a \<in> set attrs. \<exists>n p. generate_property a = Inr (n, p) \<and> v = PDict p \<and> py_eq n k"
    by auto
  with schema show ?thesis by blast
qed

section \<open>The document\<close>

lemma build_spec_Inr:
  assumes "build_spec sm so tax model = Inr d"
  shows "\<exists>mi ents dom tv ver descr es schemas paths.
     py_get model ''model'' (PDict []) = Inr mi \<and>
     py_get model ''entities'' (PList []) = Inr ents \<and>
     py_get mi ''domain'' (PStr ''API'') = Inr dom \<and> api_title sm dom = Inr tv \<and>
     py_get mi ''version'' (PStr ''1.0.0'') = Inr ver \<and>
     py_get mi ''description'' (PStr []) = Inr descr \<and>
     py_iter ents = Inr es \<and>
     for_each (entity_step sm) ([], []) es = Inr (schemas, paths) \<and>
     add_taxonomy so tax mi ents (openapi_spec tv ver descr paths schemas) = Inr d"
  using assms by (auto simp: build_spec_def and_then_Inr_iff)

lemma add_taxonomy_Inr:
  assumes "add_taxonomy so tax mi ents spec = Inr d"
  shows "(\<not> truthy tax \<and> d = PDict spec) \<or>
         (truthy tax \<and> (\<exists>dom ver c.
            py_get mi ''domain'' PNone = Inr dom \<and> py_get mi ''version'' PNone = Inr ver \<and>
            extract_compliance_requirements so ents = Inr c \<and>
            d = PDict (d_set (PStr ''x-taxonomy'')
                  (obj [(''domain'', dom), (''version'', ver), (''compliance'', c)]) spec)))"
  using assms by (auto simp: add_taxonomy_def and_then_Inr_iff split: if_splits)

lemma add_taxonomy_getitem:
  assumes "add_taxonomy so tax mi ents spec = Inr d" and "k \<noteq> ''x-taxonomy''"
  shows "py_getitem d k = py_getitem (PDict spec) k"
  using add_taxonomy_Inr[OF assms(1)] assms(2)
  by (auto simp: d_lookup_str map_of_d_set_str)

lemma openapi_spec_lookups:
  "py_getitem (PDict (openapi_spec tv ver descr paths schemas)) ''paths'' = Inr (PDict paths)"
  "path_get (PDict (openapi_spec tv ver descr paths schemas)) [''components'', ''schemas'']
     = Inr (PDict schemas)"
  "path_get (PDict (openapi_spec tv ver descr paths schemas)) [''info'', ''title''] = Inr tv"
  "py_in ''x-taxonomy'' (PDict (openapi_spec tv ver descr paths schemas)) = Inr False"
  by (simp_all add: openapi_spec_def obj_def)

lemma add_taxonomy_truthy_cong:
  "truthy t1 = truthy t2 \<Longrightarrow>
   add_taxonomy so t1 mi ents spec = add_taxonomy so t2 mi ents spec"
  by (simp add: add_taxonomy_def)

lemma build_spec_truthy_cong:
  assumes "truthy t1 = truthy t2"
  shows "build_spec sm so t1 model = build_spec sm so t2 model"
  unfolding build_spec_def add_taxonomy_truthy_cong[OF assms] ..

section \<open>The claims about the taxonomy and the command line\<close>

text \<open>
  C10. Two generators whose taxonomy mappings are both empty or both non-empty make the
  same document from every model file: the entries of the taxonomy never reach the output.
\<close>

theorem taxonomy_entries_do_not_matter:
  assumes "(k1 = []) = (k2 = [])"
  shows "generate_from_model rt fs \<lparr>taxonomy = PDict k1\<rparr> model_file
       = generate_from_model rt fs \<lparr>taxonomy = PDict k2\<rparr> model_file"
proof -
  have "truthy (PDict k1) = truthy (PDict k2)" using assms by simp
  from build_spec_truthy_cong[OF this] show ?thesis
    by (simp add: generate_from_model_def)
qed

theorem taxonomy_entries_do_not_matter_witness:
  "\<not> isl (generate_from_model example_runtime example_files
            \<lparr>taxonomy = PDict [(PStr ''owner'', PStr ''data-office'')]\<rparr>
            ''models/user.model.json'') \<and>
   generate_from_model example_runtime example_files
     \<lparr>taxonomy = PDict [(PStr ''owner'', PStr ''data-office'')]\<rparr> ''models/user.model.json''
   = generate_from_model example_runtime example_files
     \<lparr>taxonomy = PDict [(PStr ''levels'', PInt 3), (PStr ''region'', PStr ''eu'')]\<rparr>
     ''models/user.model.json''"
proof -
  have h: "([(PStr ''owner'', PStr ''data-office'')] = [])
         = ([(PStr ''levels'', PInt 3), (PStr ''region'', PStr ''eu'')] = [])" by simp
  have r: "read_json example_runtime example_files ''models/user.model.json'' = Inr example_model"
    by (simp add: read_json_def example_runtime_def example_files_def)
  have "\<not> isl (build_spec ascii_strings (\<lambda>xs. xs) (PDict [(PStr ''owner'', PStr ''data-office'')]) example_model)"
    by code_simp
  then have "\<not> isl (generate_from_model example_runtime example_files
            \<lparr>taxonomy = PDict [(PStr ''owner'', PStr ''data-office'')]\<rparr>
            ''models/user.model.json'')"
    by (simp add: generate_from_model_def r) (simp add: example_runtime_def)
  with taxonomy_entries_do_not_matter[OF h] show ?thesis by blast
qed

lemma read_json_missing:
  assumes "files fs p = None \<or> (\<exists>text. files fs p = Some text \<and> json_load rt text = None)"
  shows "\<exists>e. read_json rt fs p = Inl e"
  using assms by (auto simp: read_json_def)

lemma write_output_ok:
  assumes "write_output rt fs p spec = (fs', None)"
  shows "\<exists>text. yaml_dump rt spec = (text, None) \<and> files fs' p = Some text"
proof -
  obtain fs1 e1 where m: "mkdir_parents rt fs p = (fs1, e1)" by (cases "mkdir_parents rt fs p")
  obtain dumped e2 where y: "yaml_dump rt spec = (dumped, e2)" by (cases "yaml_dump rt spec")
  from assms m y show ?thesis
    by (cases e1) (auto simp: write_output_def split: if_splits)
qed

text \<open>
  C9, as amended. A model file that is missing, or whose text is not JSON, makes
  generation fail; a failing generation ends the process with status 1 and leaves the file
  system as it was, so no output file is created; and a run that ends with status 0 has
  dumped the whole document, without an error, into the output file. Nothing is said of a
  run that fails once the output file is open.
\<close>

theorem generation_is_all_or_nothing:
  "((files fs (arg_model a) = None \<or>
      (\<exists>text. files fs (arg_model a) = Some text \<and> json_load rt text = None))
     \<longrightarrow> (\<forall>g. \<exists>e. generate_from_model rt fs g (arg_model a) = Inl e)) \<and>
   ((\<forall>g. \<exists>e. generate_from_model rt fs g (arg_model a) = Inl e)
     \<longrightarrow> main rt a fs = (1, fs)) \<and>
   (fst (main rt a fs) = 0
     \<longrightarrow> (\<exists>g spec text. init rt fs (arg_taxonomy a) = Inr g \<and>
            generate_from_model rt fs g (arg_model a) = Inr spec \<and>
            yaml_dump rt spec = (text, None) \<and>
            files (snd (main rt a fs)) (arg_output a) = Some text))"
proof (intro conjI impI allI)
  fix g
  assume "files fs (arg_model a) = None \<or>
      (\<exists>text. files fs (arg_model a) = Some text \<and> json_load rt text = None)"
  from read_json_missing[OF this] show "\<exists>e. generate_from_model rt fs g (arg_model a) = Inl e"
    by (auto simp: generate_from_model_def)
next
  assume fails: "\<forall>g. \<exists>e. generate_from_model rt fs g (arg_model a) = Inl e"
  show "main rt a fs = (1, fs)"
  proof (cases "init rt fs (arg_taxonomy a)")
    case (Inl e)
    then show ?thesis by (simp add: main_def)
  next
    case (Inr g)
    from fails obtain e where "generate_from_model rt fs g (arg_model a) = Inl e" by blast
    with Inr show ?thesis by (simp add: main_def)
  qed
next
  assume ok: "fst (main rt a fs) = 0"
  then obtain g where g: "init rt fs (arg_taxonomy a) = Inr g"
    by (cases "init rt fs (arg_taxonomy a)") (auto simp: main_def)
  with ok obtain spec where spec: "generate_from_model rt fs g (arg_model a) = Inr spec"
    by (cases "generate_from_model rt fs g (arg_model a)") (auto simp: main_def)
  obtain fs' e where w: "write_output rt fs (arg_output a) spec = (fs', e)"
    by (cases "write_output rt fs (arg_output a) spec")
  from ok g spec w have e: "e = None"
    by (cases e) (auto simp: main_def)
  from ok g spec w e have m: "snd (main rt a fs) = fs'"
    by (auto simp: main_def split: option.splits)
  from write_output_ok[OF w[unfolded e]] obtain dumped where
    "yaml_dump rt spec = (dumped, None)" "files fs' (arg_output a) = Some dumped" by blast
  with g spec m show "\<exists>g spec text. init rt fs (arg_taxonomy a) = Inr g \<and>
            generate_from_model rt fs g (arg_model a) = Inr spec \<and>
            yaml_dump rt spec = (text, None) \<and>
            files (snd (main rt a fs)) (arg_output a) = Some text"
    by auto
qed

lemma example_generates:
  "\<exists>spec. generate_from_model example_runtime example_files \<lparr>taxonomy = PDict []\<rparr>
             ''models/user.model.json'' = Inr spec"
proof -
  have r: "read_json example_runtime example_files ''models/user.model.json'' = Inr example_model"
    by (simp add: read_json_def example_runtime_def example_files_def)
  have "\<not> isl (build_spec ascii_strings (\<lambda>xs. xs) (PDict []) example_model)" by code_simp
  then obtain spec where "build_spec ascii_strings (\<lambda>xs. xs) (PDict []) example_model = Inr spec"
    using not_isl_obtain by blast
  then show ?thesis
    by (simp add: generate_from_model_def r) (simp add: example_runtime_def)
qed

theorem generation_is_all_or_nothing_witness:
  "files example_files ''models/none.json'' = None \<and>
   main example_runtime
     \<lparr>arg_model = ''models/none.json'', arg_taxonomy = None, arg_output = ''out/api.yaml''\<rparr>
     example_files = (1, example_files) \<and>
   json_load example_runtime ''{'' = None \<and>
   main example_runtime
     \<lparr>arg_model = ''models/broken.json'', arg_taxonomy = None, arg_output = ''out/api.yaml''\<rparr>
     example_files = (1, example_files) \<and>
   fst (main example_runtime
     \<lparr>arg_model = ''models/user.model.json'', arg_taxonomy = None,
      arg_output = ''out/api.yaml''\<rparr> example_files) = 0 \<and>
   files (snd (main example_runtime
     \<lparr>arg_model = ''models/user.model.json'', arg_taxonomy = None,
      arg_output = ''out/api.yaml''\<rparr> example_files)) ''out/api.yaml'' = Some ''openapi: 3.0.3''"
proof -
  let ?none = "\<lparr>arg_model = ''models/none.json'', arg_taxonomy = None,
                 arg_output = ''out/api.yaml''\<rparr>"
  let ?broken = "\<lparr>arg_model = ''models/broken.json'', arg_taxonomy = None,
                   arg_output = ''out/api.yaml''\<rparr>"
  let ?good = "\<lparr>arg_model = ''models/user.model.json'', arg_taxonomy = None,
                 arg_output = ''out/api.yaml''\<rparr>"
  have m: "files example_files ''models/none.json'' = None"
    by (simp add: example_files_def)
  have b: "files example_files ''models/broken.json'' = Some ''{''"
    "json_load example_runtime ''{'' = None"
    by (simp_all add: example_files_def example_runtime_def)
  from generation_is_all_or_nothing[of example_files ?none example_runtime] m
  have 1: "main example_runtime ?none example_files = (1, example_files)" by simp
  from generation_is_all_or_nothing[of example_files ?broken example_runtime] b
  have 2: "main example_runtime ?broken example_files = (1, example_files)" by simp
  from example_generates obtain spec where
    g: "generate_from_model example_runtime example_files \<lparr>taxonomy = PDict []\<rparr>
             ''models/user.model.json'' = Inr spec" by blast
  have 3: "fst (main example_runtime ?good example_files) = 0"
    using g by (simp add: main_def init_def write_output_def)
      (simp add: example_runtime_def example_files_def)
  from generation_is_all_or_nothing[of example_files ?good example_runtime] 3
  have 4: "files (snd (main example_runtime ?good example_files)) ''out/api.yaml''
           = Some ''openapi: 3.0.3''"
    by (auto simp: example_runtime_def)
  from m b(2) 1 2 3 4 show ?thesis by blast
qed

text \<open>
  C9 as stated fails once the output file is open. In the first run the dump raises before
  it writes anything: the process ends with status 1 and the output file, which was not
  there, is there and empty. In the second run the standard output cannot encode the line
  of line 304: the whole document is in the output file and the process ends with
  status 1.
\<close>

theorem write_faults_counterexample:
  "files example_files ''out/api.yaml'' = None \<and>
   fst (main failing_dump_runtime
     \<lparr>arg_model = ''models/user.model.json'', arg_taxonomy = None,
      arg_output = ''out/api.yaml''\<rparr> example_files) = 1 \<and>
   files (snd (main failing_dump_runtime
     \<lparr>arg_model = ''models/user.model.json'', arg_taxonomy = None,
      arg_output = ''out/api.yaml''\<rparr> example_files)) ''out/api.yaml'' = Some [] \<and>
   \<not> is_ascii (success_message ''out/api.yaml'') \<and>
   fst (main ascii_stdout_runtime
     \<lparr>arg_model = ''models/user.model.json'', arg_taxonomy = None,
      arg_output = ''out/api.yaml''\<rparr> example_files) = 1 \<and>
   files (snd (main ascii_stdout_runtime
     \<lparr>arg_model = ''models/user.model.json'', arg_taxonomy = None,
      arg_output = ''out/api.yaml''\<rparr> example_files)) ''out/api.yaml'' = Some ''openapi: 3.0.3''"
proof -
  let ?good = "\<lparr>arg_model = ''models/user.model.json'', arg_taxonomy = None,
                 arg_output = ''out/api.yaml''\<rparr>"
  from example_generates obtain spec where
    g: "generate_from_model example_runtime example_files \<lparr>taxonomy = PDict []\<rparr>
             ''models/user.model.json'' = Inr spec" by blast
  have g1: "generate_from_model failing_dump_runtime example_files \<lparr>taxonomy = PDict []\<rparr>
             ''models/user.model.json'' = Inr spec"
    using g by (auto simp: generate_from_model_def read_json_def failing_dump_runtime_def
          split: option.splits)
  have g2: "generate_from_model ascii_stdout_runtime example_files \<lparr>taxonomy = PDict []\<rparr>
             ''models/user.model.json'' = Inr spec"
    using g by (auto simp: generate_from_model_def read_json_def ascii_stdout_runtime_def
          split: option.splits)
  have 0: "files example_files ''out/api.yaml'' = None"
    by (simp add: example_files_def)
  have n: "\<not> is_ascii (success_message ''out/api.yaml'')" by code_simp
  have 1: "fst (main failing_dump_runtime ?good example_files) = 1"
    and 2: "files (snd (main failing_dump_runtime ?good example_files)) ''out/api.yaml''
            = Some []"
    using g1 by (simp_all add: main_def init_def write_output_def)
      (simp_all add: failing_dump_runtime_def example_runtime_def example_files_def)
  have 3: "fst (main ascii_stdout_runtime ?good example_files) = 1"
    and 4: "files (snd (main ascii_stdout_runtime ?good example_files)) ''out/api.yaml''
            = Some ''openapi: 3.0.3''"
    using g2 n by (simp_all add: main_def init_def write_output_def)
      (simp_all add: ascii_stdout_runtime_def example_runtime_def example_files_def)
  from 0 1 2 n 3 4 show ?thesis by blast
qed

section \<open>The title\<close>

lemma underscore_uncased [simp]:
  "\<not> is_lower CHR ''_''" "\<not> is_upper CHR ''_''" "\<not> is_lower CHR '' ''" "\<not> is_upper CHR '' ''"
  by (simp_all add: is_lower_def is_upper_def)

lemma to_upper_not_underscore: "is_lower c \<Longrightarrow> to_upper c \<noteq> CHR ''_''"
proof
  assume l: "is_lower c" and "to_upper c = CHR ''_''"
  then have e: "(of_char (char_of ((of_char c :: nat) - 32)) :: nat) = of_char CHR ''_''"
    by (simp add: to_upper_def)
  from l have b: "(of_char c :: nat) - 32 < 256" unfolding is_lower_def by linarith
  from e have "((of_char c :: nat) - 32) mod 256 = 95" by simp
  with mod_less[OF b] have "(of_char c :: nat) - 32 = 95" by simp
  with l show False unfolding is_lower_def by linarith
qed

lemma to_lower_not_underscore: "is_upper c \<Longrightarrow> to_lower c \<noteq> CHR ''_''"
proof
  assume u: "is_upper c" and "to_lower c = CHR ''_''"
  then have "(of_char (char_of ((of_char c :: nat) + 32)) :: nat) = of_char CHR ''_''"
    by (simp add: to_lower_def)
  with u show False by (simp add: is_upper_def)
qed

lemma title_from_replace:
  "title_from prev (replace_underscore s) = replace_underscore (title_from prev s)"
proof (induction s arbitrary: prev)
  case Nil
  then show ?case by (simp add: replace_underscore_def)
next
  case (Cons c s)
  have IH: "\<And>p. title_from p (map (\<lambda>c. if c = CHR ''_'' then CHR '' '' else c) s)
              = map (\<lambda>c. if c = CHR ''_'' then CHR '' '' else c) (title_from p s)"
    using Cons.IH by (simp add: replace_underscore_def)
  show ?case
  proof (cases "c = CHR ''_''")
    case True
    then show ?thesis by (simp add: replace_underscore_def IH)
  next
    case False
    then show ?thesis
      using to_upper_not_underscore[of c] to_lower_not_underscore[of c]
      by (auto simp: replace_underscore_def IH)
  qed
qed

lemma path_get_add_taxonomy:
  assumes "add_taxonomy so tax mi ents spec = Inr d" and "k \<noteq> ''x-taxonomy''"
  shows "path_get d (k # ks) = path_get (PDict spec) (k # ks)"
  using add_taxonomy_getitem[OF assms] by simp

lemma api_title_Inr:
  "api_title sm dv = Inr tv \<Longrightarrow>
   \<exists>s. dv = PStr s \<and> tv = PStr (str_title sm (replace_underscore s) @ '' API'')"
  by (cases dv) (auto simp: api_title_def)

lemma is_ascii_replace_underscore: "is_ascii s \<Longrightarrow> is_ascii (replace_underscore s)"
  by (induction s) (auto simp: is_ascii_def replace_underscore_def)

lemma ascii_faithful_ascii_strings: "ascii_faithful ascii_strings"
  by (simp add: ascii_faithful_def ascii_strings_def)

text \<open>
  C2, as amended. The title is \<^verbatim>\<open>str.title\<close> of the domain with its underscores
  replaced by spaces, followed by \<^verbatim>\<open>" API"\<close>. Where \<^verbatim>\<open>str.title\<close> is on ASCII text
  the function \<open>title\<close>, an ASCII domain gets the title that \<open>title\<close> computes, and
  replacing before or after the title case gives the same text; and a model without a
  \<^verbatim>\<open>domain\<close> gets the title \<^verbatim>\<open>"Api API"\<close>: the default \<^verbatim>\<open>'API'\<close> is put in
  title case, the suffix is not.
\<close>

theorem title_from_domain:
  assumes "build_spec sm so tax model = Inr d"
  shows "\<exists>mi dn. py_get model ''model'' (PDict []) = Inr mi \<and>
     py_get mi ''domain'' (PStr ''API'') = Inr (PStr dn) \<and>
     path_get d [''info'', ''title'']
       = Inr (PStr (str_title sm (replace_underscore dn) @ '' API'')) \<and>
     (ascii_faithful sm \<longrightarrow>
        (is_ascii dn \<longrightarrow>
           path_get d [''info'', ''title'']
             = Inr (PStr (title (replace_underscore dn) @ '' API'')) \<and>
           title (replace_underscore dn) = replace_underscore (title dn)) \<and>
        (py_in ''domain'' mi = Inr False \<longrightarrow>
           path_get d [''info'', ''title''] = Inr (PStr ''Api API'')))"
proof -
  from build_spec_Inr[OF assms] obtain mi ents dv tv ver descr schemas paths where
    mi: "py_get model ''model'' (PDict []) = Inr mi"
    and dom: "py_get mi ''domain'' (PStr ''API'') = Inr dv"
    and tv: "api_title sm dv = Inr tv"
    and d: "add_taxonomy so tax mi ents (openapi_spec tv ver descr paths schemas) = Inr d"
    by blast
  from api_title_Inr[OF tv] obtain s where s: "dv = PStr s"
    and tvs: "tv = PStr (str_title sm (replace_underscore s) @ '' API'')" by blast
  have t: "path_get d [''info'', ''title'']
             = Inr (PStr (str_title sm (replace_underscore s) @ '' API''))"
    using path_get_add_taxonomy[OF d, of "''info''" "[''title'']"] openapi_spec_lookups(3) tvs
    by simp
  have ascii: "path_get d [''info'', ''title'']
             = Inr (PStr (title (replace_underscore s) @ '' API'')) \<and>
           title (replace_underscore s) = replace_underscore (title s)"
    if f: "ascii_faithful sm" and a: "is_ascii s"
  proof -
    from f is_ascii_replace_underscore[OF a]
    have "str_title sm (replace_underscore s) = title (replace_underscore s)"
      by (simp add: ascii_faithful_def)
    with t title_from_replace[of False s] show ?thesis by (simp add: title_def)
  qed
  have absent: "path_get d [''info'', ''title''] = Inr (PStr ''Api API'')"
    if f: "ascii_faithful sm" and n: "py_in ''domain'' mi = Inr False"
  proof -
    from dom n have "dv = PStr ''API''"
      by (cases mi) (auto split: option.splits)
    with s have api: "s = ''API''" by simp
    have "is_ascii ''API''" by code_simp
    from ascii[OF f this[folded api]]
    have "path_get d [''info'', ''title''] = Inr (PStr (title (replace_underscore s) @ '' API''))"
      by simp
    moreover have "title (replace_underscore ''API'') @ '' API'' = ''Api API''" by code_simp
    ultimately show ?thesis unfolding api by simp
  qed
  show ?thesis
    by (rule exI[of _ mi], rule exI[of _ s])
       (use mi dom s t ascii absent in blast)
qed

theorem title_from_domain_witness:
  "ascii_faithful ascii_strings \<and> is_ascii ''user_account'' \<and>
   result_at (build_spec ascii_strings id (PDict []) example_model) [''info'', ''title'']
     = Inr (PStr ''User Account API'') \<and>
   result_at (build_spec ascii_strings id (PDict [])
      (obj [(''model'', obj [(''version'', PStr ''0.1.0'')])])) [''info'', ''title'']
     = Inr (PStr ''Api API'')"
proof -
  note f = ascii_faithful_ascii_strings
  have a: "is_ascii ''user_account''" by code_simp
  have "\<not> isl (build_spec ascii_strings id (PDict []) example_model)" by code_simp
  then obtain d where d: "build_spec ascii_strings id (PDict []) example_model = Inr d"
    using not_isl_obtain by blast
  have m: "py_get example_model ''model'' (PDict [])
           = Inr (obj [(''domain'', PStr ''user_account''), (''version'', PStr ''2.0.0'')])"
    by code_simp
  have dm: "py_get (obj [(''domain'', PStr ''user_account''), (''version'', PStr ''2.0.0'')])
              ''domain'' (PStr ''API'') = Inr (PStr ''user_account'')" by code_simp
  have t: "title (replace_underscore ''user_account'') @ '' API'' = ''User Account API''"
    by code_simp
  from title_from_domain[OF d] obtain mi dn where
    1: "py_get example_model ''model'' (PDict []) = Inr mi"
    and 2: "py_get mi ''domain'' (PStr ''API'') = Inr (PStr dn)"
    and 3: "ascii_faithful ascii_strings \<longrightarrow>
        (is_ascii dn \<longrightarrow>
           path_get d [''info'', ''title'']
             = Inr (PStr (title (replace_underscore dn) @ '' API'')) \<and>
           title (replace_underscore dn) = replace_underscore (title dn)) \<and>
        (py_in ''domain'' mi = Inr False \<longrightarrow>
           path_get d [''info'', ''title''] = Inr (PStr ''Api API''))"
    by (elim exE conjE) (rule that; assumption)
  from 1 m have mi: "mi = obj [(''domain'', PStr ''user_account''), (''version'', PStr ''2.0.0'')]"
    by simp
  from 2[unfolded mi dm] have dn: "dn = ''user_account''" by simp
  from 3 f a t have r1: "path_get d [''info'', ''title''] = Inr (PStr ''User Account API'')"
    unfolding dn by simp
  let ?m2 = "obj [(''model'', obj [(''version'', PStr ''0.1.0'')])]"
  have "\<not> isl (build_spec ascii_strings id (PDict []) ?m2)" by code_simp
  then obtain d2 where d2: "build_spec ascii_strings id (PDict []) ?m2 = Inr d2"
    using not_isl_obtain by blast
  have m2: "py_get ?m2 ''model'' (PDict []) = Inr (obj [(''version'', PStr ''0.1.0'')])"
    by code_simp
  have a2: "py_in ''domain'' (obj [(''version'', PStr ''0.1.0'')]) = Inr False" by code_simp
  from title_from_domain[OF d2] obtain mi2 where
    4: "py_get ?m2 ''model'' (PDict []) = Inr mi2"
    and 5: "ascii_faithful ascii_strings \<longrightarrow>
        (py_in ''domain'' mi2 = Inr False \<longrightarrow>
           path_get d2 [''info'', ''title''] = Inr (PStr ''Api API''))"
    by (elim exE conjE) (rule that; blast)
  from 4 m2 have "mi2 = obj [(''version'', PStr ''0.1.0'')]" by simp
  with 5 f a2 have r2: "path_get d2 [''info'', ''title''] = Inr (PStr ''Api API'')" by simp
  from f a r1 r2 d d2 show ?thesis by (simp add: result_at_def)
qed

text \<open>
  C2 as stated fails on the default: a model without a domain gets the title
  \<^verbatim>\<open>"Api API"\<close>, not \<^verbatim>\<open>"Api Api"\<close>. All the text of this run is ASCII, where
  \<^verbatim>\<open>str.title\<close> is \<open>title\<close>.
\<close>

theorem default_title_counterexample:
  "py_in ''domain'' (PDict []) = Inr False \<and>
   result_at (build_spec ascii_strings id (PDict [])
       (obj [(''model'', PDict []), (''entities'', PList [])]))
     [''info'', ''title''] = Inr (PStr ''Api API'') \<and>
   PStr ''Api API'' \<noteq> PStr ''Api Api''"
  by code_simp

section \<open>Schemas and paths of the entities\<close>

lemma base_path_inj [simp]: "base_path s = base_path t \<longleftrightarrow> s = t"
  by (simp add: base_path_def)

lemma entity_path_inj [simp]: "entity_path s = entity_path t \<longleftrightarrow> s = t"
proof
  assume eq: "entity_path s = entity_path t"
  then have "length (entity_path s) = length (entity_path t)" by simp
  then have len: "length s = length t" by (simp add: entity_path_def base_path_def)
  from eq have "s @ (''s/{'' @ s @ ''Id}'') = t @ (''s/{'' @ t @ ''Id}'')"
    by (simp add: entity_path_def base_path_def)
  with len show "s = t" using append_eq_append_conv[of s t] by blast
qed simp

lemma base_ne_entity [simp]: "base_path s \<noteq> entity_path t"
proof
  assume "base_path s = entity_path t"
  then have "last (base_path s) = last (entity_path t)" by simp
  then show False by (simp add: base_path_def entity_path_def)
qed

lemma entity_ne_base [simp]: "entity_path t \<noteq> base_path s"
  using base_ne_entity[of s t] by (simp del: base_ne_entity)

lemma generate_entity_paths_eq:
  "generate_entity_paths n s =
     [(PStr (base_path s), collection_item n), (PStr (entity_path s), single_item n s)]"
  by (simp add: generate_entity_paths_def)

lemma entity_step_Inr:
  assumes "entity_step sm (S, P) e = Inr (S1, P1)"
  shows "\<exists>n schema. py_getitem e ''name'' = Inr (PStr n) \<and>
           generate_entity_schema e = Inr schema \<and>
           S1 = d_set (PStr n) schema S \<and>
           P1 = d_set (PStr (entity_path (str_lower sm n))) (single_item n (str_lower sm n))
                  (d_set (PStr (base_path (str_lower sm n))) (collection_item n) P)"
proof -
  from assms obtain nv where nv: "py_getitem e ''name'' = Inr nv"
    by (auto simp: entity_step_def and_then_Inr_iff)
  with assms obtain n where n: "nv = PStr n"
    by (cases nv) (auto simp: entity_step_def)
  from assms nv n show ?thesis
    by (auto simp: entity_step_def and_then_Inr_iff generate_entity_paths_eq)
qed

lemma distinct_keys_d_set: "distinct (keys d) \<Longrightarrow> distinct (keys (d_set (PStr a) v d))"
  by (simp add: keys_d_set_str)

lemma set_keys_d_set: "set (keys (d_set (PStr a) v d)) = insert (PStr a) (set (keys d))"
  by (auto simp: keys_d_set_str)

lemma card_path_keys:
  assumes fin: "finite L"
  shows "card (PStr ` (base_path ` L \<union> entity_path ` L)) = 2 * card L"
proof -
  have "card (PStr ` (base_path ` L \<union> entity_path ` L)) = card (base_path ` L \<union> entity_path ` L)"
    by (rule card_image) (simp add: inj_on_def)
  also have "\<dots> = card (base_path ` L) + card (entity_path ` L)"
    using fin by (intro card_Un_disjoint) auto
  also have "card (base_path ` L) = card L" by (rule card_image) (simp add: inj_on_def)
  also have "card (entity_path ` L) = card L" by (rule card_image) (simp add: inj_on_def)
  finally show ?thesis by simp
qed

lemma for_each_entity_step_Cons:
  assumes "for_each (entity_step sm) (S, P) (e # es) = Inr (S', P')"
  shows "\<exists>n0 schema. py_getitem e ''name'' = Inr (PStr n0) \<and>
           generate_entity_schema e = Inr schema \<and>
           for_each (entity_step sm)
             (d_set (PStr n0) schema S,
              d_set (PStr (entity_path (str_lower sm n0))) (single_item n0 (str_lower sm n0))
                (d_set (PStr (base_path (str_lower sm n0))) (collection_item n0) P)) es = Inr (S', P')"
proof -
  from assms obtain st where st: "entity_step sm (S, P) e = Inr st"
    and rest: "for_each (entity_step sm) st es = Inr (S', P')"
    by (auto simp: and_then_Inr_iff)
  obtain S1 P1 where st1: "st = (S1, P1)" by (cases st)
  from entity_step_Inr[OF st[unfolded st1]] rest[unfolded st1] show ?thesis by auto
qed

lemma for_each_entity_step_names:
  "for_each (entity_step sm) (S, P) es = Inr (S', P') \<Longrightarrow>
   \<exists>names. map (\<lambda>e. py_getitem e ''name'') es = map (\<lambda>n. Inr (PStr n)) names"
proof (induction es arbitrary: S P)
  case Nil
  then show ?case by simp
next
  case (Cons e es)
  from for_each_entity_step_Cons[OF Cons.prems] obtain n0 S1 P1 where
    n0: "py_getitem e ''name'' = Inr (PStr n0)"
    and rest: "for_each (entity_step sm) (S1, P1) es = Inr (S', P')" by blast
  from Cons.IH[OF rest] obtain names where
    "map (\<lambda>e. py_getitem e ''name'') es = map (\<lambda>n. Inr (PStr n)) names" by blast
  with n0 have "map (\<lambda>e. py_getitem e ''name'') (e # es) = map (\<lambda>n. Inr (PStr n)) (n0 # names)"
    by simp
  then show ?case by (rule exI)
qed

lemma for_each_entity_step_schema_keys:
  "for_each (entity_step sm) (S, P) es = Inr (S', P') \<Longrightarrow>
   map (\<lambda>e. py_getitem e ''name'') es = map (\<lambda>n. Inr (PStr n)) names \<Longrightarrow>
   set (keys S') = set (keys S) \<union> PStr ` set names \<and>
   (distinct (keys S) \<longrightarrow> distinct (keys S'))"
proof (induction es arbitrary: S P names)
  case Nil
  then show ?case by simp
next
  case (Cons e es)
  from for_each_entity_step_Cons[OF Cons.prems(1)] obtain n0 schema P1 where
    n0: "py_getitem e ''name'' = Inr (PStr n0)"
    and rest: "for_each (entity_step sm) (d_set (PStr n0) schema S, P1) es = Inr (S', P')" by blast
  from Cons.prems(2) n0 obtain ns where names: "names = n0 # ns"
    and ns: "map (\<lambda>e. py_getitem e ''name'') es = map (\<lambda>n. Inr (PStr n)) ns"
    by (cases names) auto
  from Cons.IH[OF rest ns] show ?case
    unfolding names by (simp add: set_keys_d_set distinct_keys_d_set)
qed

lemma for_each_entity_step_path_keys:
  "for_each (entity_step sm) (S, P) es = Inr (S', P') \<Longrightarrow>
   map (\<lambda>e. py_getitem e ''name'') es = map (\<lambda>n. Inr (PStr n)) names \<Longrightarrow>
   set (keys P') = set (keys P) \<union>
      PStr ` (base_path ` str_lower sm ` set names \<union> entity_path ` str_lower sm ` set names) \<and>
   (distinct (keys P) \<longrightarrow> distinct (keys P'))"
proof (induction es arbitrary: S P names)
  case Nil
  then show ?case by simp
next
  case (Cons e es)
  from for_each_entity_step_Cons[OF Cons.prems(1)] obtain n0 S1 where
    n0: "py_getitem e ''name'' = Inr (PStr n0)"
    and rest: "for_each (entity_step sm)
             (S1, d_set (PStr (entity_path (str_lower sm n0))) (single_item n0 (str_lower sm n0))
                (d_set (PStr (base_path (str_lower sm n0))) (collection_item n0) P)) es = Inr (S', P')"
    by blast
  from Cons.prems(2) n0 obtain ns where names: "names = n0 # ns"
    and ns: "map (\<lambda>e. py_getitem e ''name'') es = map (\<lambda>n. Inr (PStr n)) ns"
    by (cases names) auto
  from Cons.IH[OF rest ns] show ?case
    unfolding names by (simp add: set_keys_d_set distinct_keys_d_set image_Un Un_ac insert_commute)
qed

lemma for_each_entity_step_last:
  "for_each (entity_step sm) (S, P) es = Inr (S', P') \<Longrightarrow>
   map_option Inr (map_of S' (PStr n)) =
     (case filter (\<lambda>e. py_getitem e ''name'' = Inr (PStr n)) es of
        [] \<Rightarrow> map_option Inr (map_of S (PStr n))
      | f # fs \<Rightarrow> Some (generate_entity_schema (last (f # fs))))"
proof (induction es arbitrary: S P)
  case Nil
  then show ?case by simp
next
  case (Cons e es)
  from for_each_entity_step_Cons[OF Cons.prems] obtain n0 schema P1 where
    n0: "py_getitem e ''name'' = Inr (PStr n0)"
    and schema: "generate_entity_schema e = Inr schema"
    and rest: "for_each (entity_step sm) (d_set (PStr n0) schema S, P1) es = Inr (S', P')" by blast
  note IH = Cons.IH[OF rest]
  show ?case
  proof (cases "n = n0")
    case True
    from IH n0 schema show ?thesis
      unfolding True
      by (cases "filter (\<lambda>e. py_getitem e ''name'' = Inr (PStr n0)) es")
         (simp_all add: map_of_d_set_str)
  next
    case False
    from IH n0 False show ?thesis
      by (cases "filter (\<lambda>e. py_getitem e ''name'' = Inr (PStr n)) es")
         (simp_all add: map_of_d_set_str)
  qed
qed

lemma and_then_return [simp]: "and_then m Inr = m"
  by (cases m) simp_all

lemma names_filter_nonempty:
  assumes "map (\<lambda>e. py_getitem e ''name'') es = map (\<lambda>n. Inr (PStr n)) names"
    and "n \<in> set names"
  shows "filter (\<lambda>e. py_getitem e ''name'' = Inr (PStr n)) es \<noteq> []"
proof -
  from assms(2) have "Inr (PStr n) \<in> set (map (\<lambda>n. Inr (PStr n) :: error + pyval) names)"
    by auto
  with assms(1) have "Inr (PStr n) \<in> set (map (\<lambda>e. py_getitem e ''name'') es)" by simp
  then obtain e where "e \<in> set es" "py_getitem e ''name'' = Inr (PStr n)" by auto
  then show ?thesis by (auto simp: filter_empty_conv)
qed

text \<open>
  C1, as amended. The keys of \<^verbatim>\<open>components.schemas\<close> are the entity names, each
  once: as many keys as there are different names, and under a name the schema of the last
  entity that has it. The keys of \<^verbatim>\<open>paths\<close> are the collection path and the item
  path of every lower-cased entity name, each once: twice as many keys as there are
  different lower-cased names. When the lower-cased names of the N entities are pairwise
  different there are N schemas and 2N paths. Lower-cased is what \<^verbatim>\<open>str.lower\<close>
  makes of the name, whatever the interpreter's \<^verbatim>\<open>str.lower\<close> is.
\<close>

theorem schemas_and_paths_keys:
  assumes "build_spec sm so tax model = Inr d"
  shows "\<exists>es names sk pk.
      model_entities model = Inr es \<and>
      map (\<lambda>e. py_getitem e ''name'') es = map (\<lambda>n. Inr (PStr n)) names \<and>
      keys_at d [''components'', ''schemas''] = Inr sk \<and>
      keys_at d [''paths''] = Inr pk \<and>
      distinct sk \<and> set sk = PStr ` set names \<and> length sk = card (set names) \<and>
      distinct pk \<and>
      set pk = PStr ` (base_path ` str_lower sm ` set names \<union> entity_path ` str_lower sm ` set names) \<and>
      length pk = 2 * card (str_lower sm ` set names) \<and>
      (distinct (map (str_lower sm) names) \<longrightarrow> length sk = length es \<and> length pk = 2 * length es) \<and>
      (\<forall>n \<in> set names.
         path_get d [''components'', ''schemas'', n] =
         generate_entity_schema (last (filter (\<lambda>e. py_getitem e ''name'' = Inr (PStr n)) es)))"
proof -
  from build_spec_Inr[OF assms] obtain mi ents tv ver descr es schemas paths where
    ents: "py_get model ''entities'' (PList []) = Inr ents"
    and es: "py_iter ents = Inr es"
    and loop: "for_each (entity_step sm) ([], []) es = Inr (schemas, paths)"
    and d: "add_taxonomy so tax mi ents (openapi_spec tv ver descr paths schemas) = Inr d"
    by blast
  from for_each_entity_step_names[OF loop] obtain names where
    names: "map (\<lambda>e. py_getitem e ''name'') es = map (\<lambda>n. Inr (PStr n)) names" by blast
  have len: "length es = length names"
    using arg_cong[OF names, of length] by simp
  have me: "model_entities model = Inr es"
    using ents es by (simp add: model_entities_def)
  have c: "''components'' \<noteq> ''x-taxonomy''" and p: "''paths'' \<noteq> ''x-taxonomy''"
    by simp_all
  have sk: "keys_at d [''components'', ''schemas''] = Inr (keys schemas)"
    unfolding keys_at_def path_get_add_taxonomy[OF d c] openapi_spec_lookups(2)
    by simp
  have "path_get (PDict (openapi_spec tv ver descr paths schemas)) [''paths'']
          = Inr (PDict paths)"
    using openapi_spec_lookups(1)[of tv ver descr paths schemas] by simp
  then have pk: "keys_at d [''paths''] = Inr (keys paths)"
    unfolding keys_at_def path_get_add_taxonomy[OF d p] by simp
  from for_each_entity_step_schema_keys[OF loop names]
  have s1: "set (keys schemas) = PStr ` set names" and s2: "distinct (keys schemas)"
    by (simp_all add: keys_def)
  from for_each_entity_step_path_keys[OF loop names]
  have p1: "set (keys paths) =
      PStr ` (base_path ` str_lower sm ` set names \<union> entity_path ` str_lower sm ` set names)"
    and p2: "distinct (keys paths)"
    by (simp_all add: keys_def)
  have s3: "length (keys schemas) = card (set names)"
    using distinct_card[OF s2] s1 by (simp add: card_image inj_on_def)
  have p3: "length (keys paths) = 2 * card (str_lower sm ` set names)"
    using distinct_card[OF p2] p1 card_path_keys[of "str_lower sm ` set names"] by simp
  have dl: "length (keys schemas) = length es \<and> length (keys paths) = 2 * length es"
    if dist: "distinct (map (str_lower sm) names)"
  proof -
    from dist have "card (str_lower sm ` set names) = length names"
      using distinct_card[of "map (str_lower sm) names"] by simp
    moreover from dist have "distinct names" by (simp add: distinct_map)
    then have "card (set names) = length names" by (rule distinct_card)
    ultimately show ?thesis using s3 p3 len by simp
  qed
  have lw: "path_get d [''components'', ''schemas'', n] =
         generate_entity_schema (last (filter (\<lambda>e. py_getitem e ''name'' = Inr (PStr n)) es))"
    if n: "n \<in> set names" for n
  proof -
    from names_filter_nonempty[OF names n] obtain f fs where
      ffs: "filter (\<lambda>e. py_getitem e ''name'' = Inr (PStr n)) es = f # fs"
      by (cases "filter (\<lambda>e. py_getitem e ''name'' = Inr (PStr n)) es") auto
    from for_each_entity_step_last[OF loop, of n] ffs obtain v where
      v: "map_of schemas (PStr n) = Some v"
      and gv: "generate_entity_schema (last (f # fs)) = Inr v" by auto
    have "path_get d [''components'', ''schemas'', n] = py_getitem (PDict schemas) n"
      unfolding path_get_add_taxonomy[OF d c]
      by (simp add: openapi_spec_def obj_def)
    also have "\<dots> = Inr v" using v by (simp add: d_lookup_str)
    finally show ?thesis using gv ffs by simp
  qed
  from me names sk pk s1 s2 s3 p1 p2 p3 dl lw show ?thesis by blast
qed

theorem schemas_and_paths_keys_witness:
  "\<exists>sk pk.
     result_keys_at (build_spec ascii_strings id (PDict [])
        (obj [(''entities'', PList [obj [(''name'', PStr ''User'')],
                                    obj [(''name'', PStr ''Order'')]])]))
       [''components'', ''schemas''] = Inr sk \<and> length sk = 2 \<and>
     result_keys_at (build_spec ascii_strings id (PDict [])
        (obj [(''entities'', PList [obj [(''name'', PStr ''User'')],
                                    obj [(''name'', PStr ''Order'')]])]))
       [''paths''] = Inr pk \<and> length pk = 4"
proof -
  let ?es = "[obj [(''name'', PStr ''User'')], obj [(''name'', PStr ''Order'')]]"
  let ?m = "obj [(''entities'', PList ?es)]"
  have "\<not> isl (build_spec ascii_strings id (PDict []) ?m)" by code_simp
  then obtain d where d: "build_spec ascii_strings id (PDict []) ?m = Inr d"
    using not_isl_obtain by blast
  from schemas_and_paths_keys[OF d] obtain es names sk pk where
    me: "model_entities ?m = Inr es"
    and names: "map (\<lambda>e. py_getitem e ''name'') es = map (\<lambda>n. Inr (PStr n)) names"
    and sk: "keys_at d [''components'', ''schemas''] = Inr sk"
    and pk: "keys_at d [''paths''] = Inr pk"
    and len: "distinct (map (str_lower ascii_strings) names) \<longrightarrow> length sk = length es \<and> length pk = 2 * length es"
    by (elim exE conjE) (rule that; assumption)
  have "model_entities ?m = Inr ?es" by code_simp
  with me have es: "es = ?es" by simp
  have ev: "map (\<lambda>e. py_getitem e ''name'') ?es
            = map (\<lambda>n. Inr (PStr n)) [''User'', ''Order'']" by code_simp
  have inj: "inj (\<lambda>n. Inr (PStr n) :: error + pyval)" by (simp add: inj_def)
  have "map (\<lambda>n. Inr (PStr n) :: error + pyval) names
        = map (\<lambda>n. Inr (PStr n)) [''User'', ''Order'']"
    using names unfolding es ev by (rule sym)
  then have nm: "names = [''User'', ''Order'']"
    by (rule inj_map_eq_map[OF inj, THEN iffD1])
  have dl: "distinct (map (str_lower ascii_strings) [''User'', ''Order''])" by code_simp
  have "length es = 2" unfolding es by simp
  with len dl nm have "length sk = 2 \<and> length pk = 4" by simp
  with sk pk d show ?thesis unfolding result_keys_at_def by simp
qed

text \<open>
  C1 as stated fails: two entities named \<^verbatim>\<open>User\<close> and \<^verbatim>\<open>user\<close> have two
  schemas, and their paths fall on the same two keys, so \<^verbatim>\<open>paths\<close> has two keys
  and not four. The names are ASCII, where \<^verbatim>\<open>str.lower\<close> is \<open>lower\<close>.
\<close>

theorem two_entities_two_paths_counterexample:
  "model_entities
     (obj [(''entities'', PList [obj [(''name'', PStr ''User'')],
                                 obj [(''name'', PStr ''user'')]])])
   = Inr [obj [(''name'', PStr ''User'')], obj [(''name'', PStr ''user'')]] \<and>
   result_keys_at (build_spec ascii_strings id (PDict [])
     (obj [(''entities'', PList [obj [(''name'', PStr ''User'')],
                                 obj [(''name'', PStr ''user'')]])]))
     [''components'', ''schemas''] = Inr [PStr ''User'', PStr ''user''] \<and>
   result_keys_at (build_spec ascii_strings id (PDict [])
     (obj [(''entities'', PList [obj [(''name'', PStr ''User'')],
                                 obj [(''name'', PStr ''user'')]])]))
     [''paths''] = Inr [PStr ''/users'', PStr ''/users/{userId}'']"
  by code_simp

section \<open>Compliance requirements\<close>

lemma py_eq_sym: "py_eq a b \<Longrightarrow> py_eq b a"
  by (auto simp: py_eq_def split: option.splits)

lemma set_set_add:
  "set (set_add x s) = (if \<exists>y \<in> set s. py_eq x y then set s else insert x (set s))"
  by (simp add: set_add_def)

lemma no_equal_pair_set_add:
  assumes "no_equal_pair s"
  shows "no_equal_pair (set_add x s)"
proof (cases "\<exists>y \<in> set s. py_eq x y")
  case True
  with assms show ?thesis by (simp add: set_add_def)
next
  case False
  then have new: "\<forall>y \<in> set s. \<not> py_eq x y \<and> \<not> py_eq y x"
    using py_eq_sym by blast
  then have "x \<notin> set s" using py_eq_refl by blast
  with assms new False show ?thesis
    unfolding no_equal_pair_def set_add_def by auto
qed

lemma set_update_Inr:
  "set_update s xs = Inr s' \<Longrightarrow>
   set s \<subseteq> set s' \<and> set s' \<subseteq> set s \<union> set xs \<and>
   (\<forall>y \<in> set xs. \<exists>x \<in> set s'. py_eq y x) \<and>
   (no_equal_pair s \<longrightarrow> no_equal_pair s')"
proof (induction xs arbitrary: s)
  case Nil
  then show ?case by simp
next
  case (Cons x xs)
  from Cons.prems have rest: "set_update (set_add x s) xs = Inr s'"
    by (simp split: if_splits)
  note IH = Cons.IH[OF rest]
  have r: "\<exists>z \<in> set (set_add x s). py_eq x z"
    by (auto simp: set_set_add)
  have sub: "set (set_add x s) \<subseteq> insert x (set s)" and sup: "set s \<subseteq> set (set_add x s)"
    by (auto simp: set_set_add)
  from IH r have 3: "\<forall>y \<in> set (x # xs). \<exists>z \<in> set s'. py_eq y z" by auto
  from IH sub sup have 1: "set s \<subseteq> set s'" and 2: "set s' \<subseteq> set s \<union> set (x # xs)" by auto
  from IH no_equal_pair_set_add[of s x] have 4: "no_equal_pair s \<longrightarrow> no_equal_pair s'" by blast
  from 1 2 3 4 show ?case by blast
qed

lemma compliance_step_Inr:
  assumes "compliance_step cs e = Inr cs1"
  shows "set_update cs (entity_compliance e) = Inr cs1"
proof -
  from assms obtain classified where c: "py_in ''taxonomy_classification'' e = Inr classified"
    by (auto simp: compliance_step_def and_then_Inr_iff)
  show ?thesis
  proof (cases classified)
    case True
    with assms c show ?thesis
      by (auto simp: compliance_step_def entity_compliance_def and_then_Inr_iff)
  next
    case False
    with assms c have cs1: "cs1 = cs" by (simp add: compliance_step_def)
    from c False have "isl (py_getitem e ''taxonomy_classification'')"
      by (cases e) (auto split: option.splits)
    then have "entity_compliance e = []"
      by (cases "py_getitem e ''taxonomy_classification''") (simp_all add: entity_compliance_def)
    with cs1 show ?thesis by simp
  qed
qed

lemma for_each_compliance_step:
  "for_each compliance_step cs es = Inr cs' \<Longrightarrow>
   set cs \<subseteq> set cs' \<and> set cs' \<subseteq> set cs \<union> set (all_compliance es) \<and>
   (\<forall>y \<in> set (all_compliance es). \<exists>x \<in> set cs'. py_eq y x) \<and>
   (no_equal_pair cs \<longrightarrow> no_equal_pair cs')"
proof (induction es arbitrary: cs)
  case Nil
  then show ?case by (simp add: all_compliance_def)
next
  case (Cons e es)
  from Cons.prems obtain cs1 where st: "compliance_step cs e = Inr cs1"
    and rest: "for_each compliance_step cs1 es = Inr cs'"
    by (auto simp: and_then_Inr_iff)
  note U = set_update_Inr[OF compliance_step_Inr[OF st]]
  note IH = Cons.IH[OF rest]
  have ac: "set (all_compliance (e # es)) = set (entity_compliance e) \<union> set (all_compliance es)"
    by (simp add: all_compliance_def)
  from U IH have 1: "set cs \<subseteq> set cs'" by blast
  from U IH have 2: "set cs' \<subseteq> set cs \<union> set (all_compliance (e # es))"
    unfolding ac by blast
  have 3: "\<exists>x \<in> set cs'. py_eq y x" if "y \<in> set (all_compliance (e # es))" for y
  proof (cases "y \<in> set (entity_compliance e)")
    case True
    with U obtain x where "x \<in> set cs1" "py_eq y x" by blast
    with IH show ?thesis by blast
  next
    case False
    with that ac IH show ?thesis by blast
  qed
  from U IH have 4: "no_equal_pair cs \<longrightarrow> no_equal_pair cs'" by blast
  from 1 2 3 4 show ?case by blast
qed

lemma extract_Inr:
  "extract_compliance_requirements so ents = Inr c \<longleftrightarrow>
   (\<exists>es cs. py_iter ents = Inr es \<and> for_each compliance_step [] es = Inr cs \<and>
      c = PList (so cs))"
  by (auto simp: extract_compliance_requirements_def and_then_Inr_iff)

lemma keeps_elements_set: "keeps_elements so \<Longrightarrow> set (so xs) = set xs"
  unfolding keeps_elements_def by (metis set_mset_mset)

lemma keeps_elements_distinct: "keeps_elements so \<Longrightarrow> distinct (so xs) = distinct xs"
  unfolding keeps_elements_def by (metis mset_eq_imp_distinct_iff)

lemma keeps_elements_no_equal_pair:
  "keeps_elements so \<Longrightarrow> no_equal_pair xs \<Longrightarrow> no_equal_pair (so xs)"
  by (simp add: no_equal_pair_def keeps_elements_set keeps_elements_distinct)

lemma strings_covered:
  assumes "list_all is_string ys" and "\<forall>y \<in> set ys. \<exists>x \<in> set cs. py_eq y x"
  shows "set ys \<subseteq> set cs"
proof
  fix y assume y: "y \<in> set ys"
  with assms(1) obtain s where s: "y = PStr s"
    by (cases y) (auto simp: list_all_iff is_string_def)
  from assms(2) y obtain x where "x \<in> set cs" "py_eq y x" by blast
  with s show "y \<in> set cs" by simp
qed

text \<open>
  C7. The document has the top-level key \<^verbatim>\<open>x-taxonomy\<close> exactly when the
  generator's taxonomy is truthy, which for a mapping means non-empty. The extension then
  holds the model's domain, the model's version (\<^verbatim>\<open>null\<close> where the model has
  none) and a compliance list that is the union of the entities' compliance lists without
  duplicates: no two of its elements are equal, each comes from some entity, and every
  compliance value of every entity is equal to one of them; when the values are strings
  the list has exactly the values of the entities. The order of the list is the iteration
  order of a set, which keeps the elements.
\<close>

theorem taxonomy_extension:
  assumes "build_spec sm so tax model = Inr d" and "keeps_elements so"
  shows "py_in ''x-taxonomy'' d = Inr (truthy tax) \<and>
     (\<forall>kvs. tax = PDict kvs \<longrightarrow> (py_in ''x-taxonomy'' d = Inr True \<longleftrightarrow> kvs \<noteq> [])) \<and>
     (truthy tax \<longrightarrow>
        (\<exists>mi es cs.
           py_get model ''model'' (PDict []) = Inr mi \<and> model_entities model = Inr es \<and>
           path_get d [''x-taxonomy'', ''domain''] = py_get mi ''domain'' PNone \<and>
           path_get d [''x-taxonomy'', ''version''] = py_get mi ''version'' PNone \<and>
           path_get d [''x-taxonomy'', ''compliance''] = Inr (PList cs) \<and>
           no_equal_pair cs \<and>
           set cs \<subseteq> set (all_compliance es) \<and>
           (\<forall>y \<in> set (all_compliance es). \<exists>x \<in> set cs. py_eq y x) \<and>
           (list_all is_string (all_compliance es) \<longrightarrow> set cs = set (all_compliance es))))"
proof -
  from build_spec_Inr[OF assms(1)] obtain mi ents tv ver descr es schemas paths where
    mi: "py_get model ''model'' (PDict []) = Inr mi"
    and ents: "py_get model ''entities'' (PList []) = Inr ents"
    and es: "py_iter ents = Inr es"
    and d: "add_taxonomy so tax mi ents (openapi_spec tv ver descr paths schemas) = Inr d"
    by blast
  let ?spec = "openapi_spec tv ver descr paths schemas"
  have nox: "map_of ?spec (PStr ''x-taxonomy'') = None"
    by (simp add: openapi_spec_def)
  have me: "model_entities model = Inr es"
    using ents es by (simp add: model_entities_def)
  show ?thesis
  proof (cases "truthy tax")
    case False
    with add_taxonomy_Inr[OF d] have "d = PDict ?spec" by blast
    with False nox show ?thesis by (auto simp: d_lookup_str)
  next
    case True
    with add_taxonomy_Inr[OF d] obtain dv vv c where
      dv: "py_get mi ''domain'' PNone = Inr dv" and vv: "py_get mi ''version'' PNone = Inr vv"
      and c: "extract_compliance_requirements so ents = Inr c"
      and dd: "d = PDict (d_set (PStr ''x-taxonomy'')
                  (obj [(''domain'', dv), (''version'', vv), (''compliance'', c)]) ?spec)"
      by blast
    from c[unfolded extract_Inr] es obtain cs where
      loop: "for_each compliance_step [] es = Inr cs" and cso: "c = PList (so cs)" by auto
    note L = for_each_compliance_step[OF loop]
    have "no_equal_pair []" by (simp add: no_equal_pair_def)
    with L have "no_equal_pair cs" by blast
    then have ne: "no_equal_pair (so cs)"
      by (rule keeps_elements_no_equal_pair[OF assms(2)])
    have sub: "set (so cs) \<subseteq> set (all_compliance es)"
      using L keeps_elements_set[OF assms(2)] by simp
    have cov: "\<forall>y \<in> set (all_compliance es). \<exists>x \<in> set (so cs). py_eq y x"
      using L keeps_elements_set[OF assms(2)] by simp
    have str: "list_all is_string (all_compliance es) \<longrightarrow> set (so cs) = set (all_compliance es)"
      using strings_covered[OF _ cov] sub by blast
    have x: "py_in ''x-taxonomy'' d = Inr True"
      unfolding dd by (simp add: d_lookup_str map_of_d_set_str)
    have g1: "path_get d [''x-taxonomy'', ''domain''] = py_get mi ''domain'' PNone"
      unfolding dd dv by (simp add: d_lookup_str map_of_d_set_str obj_def)
    have g2: "path_get d [''x-taxonomy'', ''version''] = py_get mi ''version'' PNone"
      unfolding dd vv by (simp add: d_lookup_str map_of_d_set_str obj_def)
    have g3: "path_get d [''x-taxonomy'', ''compliance''] = Inr (PList (so cs))"
      unfolding dd cso by (simp add: d_lookup_str map_of_d_set_str obj_def)
    have iff: "\<forall>kvs. tax = PDict kvs \<longrightarrow> (py_in ''x-taxonomy'' d = Inr True \<longleftrightarrow> kvs \<noteq> [])"
      using True x by auto
    have ex: "\<exists>mi es cs.
           py_get model ''model'' (PDict []) = Inr mi \<and> model_entities model = Inr es \<and>
           path_get d [''x-taxonomy'', ''domain''] = py_get mi ''domain'' PNone \<and>
           path_get d [''x-taxonomy'', ''version''] = py_get mi ''version'' PNone \<and>
           path_get d [''x-taxonomy'', ''compliance''] = Inr (PList cs) \<and>
           no_equal_pair cs \<and>
           set cs \<subseteq> set (all_compliance es) \<and>
           (\<forall>y \<in> set (all_compliance es). \<exists>x \<in> set cs. py_eq y x) \<and>
           (list_all is_string (all_compliance es) \<longrightarrow> set cs = set (all_compliance es))"
      by (rule exI[of _ mi], rule exI[of _ es], rule exI[of _ "so cs"])
         (intro conjI mi me g1 g2 g3 ne sub cov str)
    have a: "py_in ''x-taxonomy'' d = Inr (truthy tax)" using x True by simp
    show ?thesis by (intro conjI impI a iff ex)
  qed
qed

theorem taxonomy_extension_witness:
  "keeps_elements rev \<and>
   (\<exists>cs. result_at
      (build_spec ascii_strings rev (obj [(''levels'', PList [PStr ''public''])])
        (obj [(''model'', obj [(''domain'', PStr ''health''), (''version'', PStr ''1.2.0'')]),
              (''entities'', PList
                 [obj [(''name'', PStr ''Patient''),
                       (''taxonomy_classification'', obj [(''compliance'', PList [PStr ''GDPR''])])],
                  obj [(''name'', PStr ''Visit''),
                       (''taxonomy_classification'',
                        obj [(''compliance'', PList [PStr ''HIPAA'', PStr ''GDPR''])])]])]))
      [''x-taxonomy'', ''compliance''] = Inr (PList cs) \<and>
      distinct cs \<and> set cs = {PStr ''GDPR'', PStr ''HIPAA''})"
proof -
  let ?es = "[obj [(''name'', PStr ''Patient''),
                       (''taxonomy_classification'', obj [(''compliance'', PList [PStr ''GDPR''])])],
                  obj [(''name'', PStr ''Visit''),
                       (''taxonomy_classification'',
                        obj [(''compliance'', PList [PStr ''HIPAA'', PStr ''GDPR''])])]]"
  let ?m = "obj [(''model'', obj [(''domain'', PStr ''health''), (''version'', PStr ''1.2.0'')]),
              (''entities'', PList ?es)]"
  let ?t = "obj [(''levels'', PList [PStr ''public''])]"
  have ke: "keeps_elements rev" by (simp add: keeps_elements_def)
  have "\<not> isl (build_spec ascii_strings rev ?t ?m)" by code_simp
  then obtain d where d: "build_spec ascii_strings rev ?t ?m = Inr d"
    using not_isl_obtain by blast
  have t: "truthy ?t" by (simp add: obj_def)
  note T = taxonomy_extension[OF d ke, THEN conjunct2, THEN conjunct2, THEN mp, OF t]
  from T obtain es cs where
    me: "model_entities ?m = Inr es"
    and c: "path_get d [''x-taxonomy'', ''compliance''] = Inr (PList cs)"
    and ne: "no_equal_pair cs"
    and str: "list_all is_string (all_compliance es) \<longrightarrow> set cs = set (all_compliance es)"
    by (elim exE conjE) (rule that; assumption)
  have "model_entities ?m = Inr ?es" by code_simp
  with me have es: "es = ?es" by simp
  have ac: "all_compliance ?es = [PStr ''GDPR'', PStr ''HIPAA'', PStr ''GDPR'']" by code_simp
  have "list_all is_string [PStr ''GDPR'', PStr ''HIPAA'', PStr ''GDPR'']" by code_simp
  with str have "set cs = {PStr ''GDPR'', PStr ''HIPAA''}"
    unfolding es ac by auto
  moreover from ne have "distinct cs" by (simp add: no_equal_pair_def)
  ultimately show ?thesis using ke c d by (auto simp: result_at_def)
qed

section \<open>The order of the compliance list\<close>

lemma build_spec_from_parts:
  assumes "py_get model ''model'' (PDict []) = Inr mi"
    and "py_get model ''entities'' (PList []) = Inr ents"
    and "py_get mi ''domain'' (PStr ''API'') = Inr dv" and "api_title sm dv = Inr tv"
    and "py_get mi ''version'' (PStr ''1.0.0'') = Inr ver"
    and "py_get mi ''description'' (PStr []) = Inr descr"
    and "py_iter ents = Inr es"
    and "for_each (entity_step sm) ([], []) es = Inr (schemas, paths)"
  shows "build_spec sm so tax model
         = add_taxonomy so tax mi ents (openapi_spec tv ver descr paths schemas)"
  using assms by (simp add: build_spec_def)

lemma keeps_elements_short:
  assumes "keeps_elements so" and "length xs \<le> 1"
  shows "so xs = xs"
proof (cases xs)
  case Nil
  from assms(1) have "mset (so []) = {#}" by (simp add: keeps_elements_def)
  then have "so [] = []" by simp
  with Nil show ?thesis by simp
next
  case (Cons x ys)
  with assms(2) have xs: "xs = [x]" by simp
  from assms(1) have "mset (so [x]) = {#x#}" by (simp add: keeps_elements_def)
  then have "so [x] = [x]" by (simp add: mset_single_iff_right)
  with xs show ?thesis by simp
qed

text \<open>
  C6, as amended. The document is a function of the model, the taxonomy and the iteration
  order of the compliance set. Under two iteration orders generation succeeds or fails
  alike; with a falsy taxonomy the two documents are equal; with a truthy one they are the
  same document but for the \<^verbatim>\<open>compliance\<close> list of \<^verbatim>\<open>x-taxonomy\<close>, whose two
  versions hold the same elements of the compliance set, and they are equal when that
  set has at most one element.
\<close>

theorem generation_up_to_set_order:
  assumes "keeps_elements so1" and "keeps_elements so2"
    and "build_spec sm so1 tax model = Inr d1"
  shows "\<exists>d2. build_spec sm so2 tax model = Inr d2 \<and>
       (\<not> truthy tax \<longrightarrow> d2 = d1) \<and>
       (truthy tax \<longrightarrow>
          (\<exists>spec dv vv es cs.
             model_entities model = Inr es \<and>
             for_each compliance_step [] es = Inr cs \<and>
             d1 = PDict (d_set (PStr ''x-taxonomy'')
                    (obj [(''domain'', dv), (''version'', vv),
                          (''compliance'', PList (so1 cs))]) spec) \<and>
             d2 = PDict (d_set (PStr ''x-taxonomy'')
                    (obj [(''domain'', dv), (''version'', vv),
                          (''compliance'', PList (so2 cs))]) spec) \<and>
             mset (so1 cs) = mset (so2 cs) \<and>
             (length cs \<le> 1 \<longrightarrow> d2 = d1)))"
proof -
  from build_spec_Inr[OF assms(3)] obtain mi ents dv tv ver descr es schemas paths where
    parts: "py_get model ''model'' (PDict []) = Inr mi"
      "py_get model ''entities'' (PList []) = Inr ents"
      "py_get mi ''domain'' (PStr ''API'') = Inr dv" "api_title sm dv = Inr tv"
      "py_get mi ''version'' (PStr ''1.0.0'') = Inr ver"
      "py_get mi ''description'' (PStr []) = Inr descr"
      "py_iter ents = Inr es"
      "for_each (entity_step sm) ([], []) es = Inr (schemas, paths)"
    and d: "add_taxonomy so1 tax mi ents (openapi_spec tv ver descr paths schemas) = Inr d1"
    by blast
  let ?spec = "openapi_spec tv ver descr paths schemas"
  note b2 = build_spec_from_parts[OF parts, of so2 tax]
  show ?thesis
  proof (cases "truthy tax")
    case False
    with add_taxonomy_Inr[OF d] have "d1 = PDict ?spec" by blast
    moreover from False have "add_taxonomy so2 tax mi ents ?spec = Inr (PDict ?spec)"
      by (simp add: add_taxonomy_def)
    ultimately have "build_spec sm so2 tax model = Inr d1" using b2 by simp
    with False show ?thesis by simp
  next
    case True
    with add_taxonomy_Inr[OF d] obtain dm vv c where
      dm: "py_get mi ''domain'' PNone = Inr dm" and vv: "py_get mi ''version'' PNone = Inr vv"
      and c: "extract_compliance_requirements so1 ents = Inr c"
      and dd: "d1 = PDict (d_set (PStr ''x-taxonomy'')
                  (obj [(''domain'', dm), (''version'', vv), (''compliance'', c)]) ?spec)"
      by blast
    from c[unfolded extract_Inr] parts(7) obtain cs where
      loop: "for_each compliance_step [] es = Inr cs" and cso: "c = PList (so1 cs)" by auto
    note it = parts(7)
    have me: "model_entities model = Inr es"
      using parts(2,7) by (simp add: model_entities_def)
    from it loop have c2: "extract_compliance_requirements so2 ents = Inr (PList (so2 cs))"
      unfolding extract_Inr by blast
    let ?d2 = "PDict (d_set (PStr ''x-taxonomy'')
                  (obj [(''domain'', dm), (''version'', vv),
                        (''compliance'', PList (so2 cs))]) ?spec)"
    from True dm vv c2 have "add_taxonomy so2 tax mi ents ?spec = Inr ?d2"
      by (simp add: add_taxonomy_def)
    with b2 have 1: "build_spec sm so2 tax model = Inr ?d2" by simp
    have 2: "mset (so1 cs) = mset (so2 cs)"
      using assms(1,2) by (simp add: keeps_elements_def)
    have 3: "length cs \<le> 1 \<longrightarrow> ?d2 = d1"
      using keeps_elements_short[OF assms(1)] keeps_elements_short[OF assms(2)]
      unfolding dd cso by simp
    have 4: "\<exists>spec dv vv es cs'.
             model_entities model = Inr es \<and>
             for_each compliance_step [] es = Inr cs' \<and>
             d1 = PDict (d_set (PStr ''x-taxonomy'')
                    (obj [(''domain'', dv), (''version'', vv),
                          (''compliance'', PList (so1 cs'))]) spec) \<and>
             ?d2 = PDict (d_set (PStr ''x-taxonomy'')
                    (obj [(''domain'', dv), (''version'', vv),
                          (''compliance'', PList (so2 cs'))]) spec) \<and>
             mset (so1 cs') = mset (so2 cs') \<and>
             (length cs' \<le> 1 \<longrightarrow> ?d2 = d1)"
      by (rule exI[of _ ?spec], rule exI[of _ dm], rule exI[of _ vv], rule exI[of _ es],
          rule exI[of _ cs])
         (intro conjI me loop dd[unfolded cso] refl 2 3)
    show ?thesis
      by (rule exI[of _ ?d2]) (use True 1 4 in simp)
  qed
qed

theorem generation_up_to_set_order_witness:
  "keeps_elements (\<lambda>xs. xs) \<and> keeps_elements rev \<and>
   \<not> isl (build_spec ascii_strings (\<lambda>xs. xs) example_taxonomy
      (obj [(''entities'', PList
         [obj [(''name'', PStr ''Patient''),
               (''taxonomy_classification'',
                obj [(''compliance'', PList [PStr ''GDPR'', PStr ''GDPR''])])]])])) \<and>
   build_spec ascii_strings rev example_taxonomy
      (obj [(''entities'', PList
         [obj [(''name'', PStr ''Patient''),
               (''taxonomy_classification'',
                obj [(''compliance'', PList [PStr ''GDPR'', PStr ''GDPR''])])]])])
   = build_spec ascii_strings (\<lambda>xs. xs) example_taxonomy
      (obj [(''entities'', PList
         [obj [(''name'', PStr ''Patient''),
               (''taxonomy_classification'',
                obj [(''compliance'', PList [PStr ''GDPR'', PStr ''GDPR''])])]])])"
proof -
  let ?es = "[obj [(''name'', PStr ''Patient''),
               (''taxonomy_classification'',
                obj [(''compliance'', PList [PStr ''GDPR'', PStr ''GDPR''])])]]"
  let ?m = "obj [(''entities'', PList ?es)]"
  have k1: "keeps_elements (\<lambda>xs. xs)" and k2: "keeps_elements rev"
    by (simp_all add: keeps_elements_def)
  have n: "\<not> isl (build_spec ascii_strings (\<lambda>xs. xs) example_taxonomy ?m)" by code_simp
  then obtain d1 where d1: "build_spec ascii_strings (\<lambda>xs. xs) example_taxonomy ?m = Inr d1"
    using not_isl_obtain by blast
  have t: "truthy example_taxonomy" by code_simp
  have me: "model_entities ?m = Inr ?es" by code_simp
  have cs: "for_each compliance_step [] ?es = Inr [PStr ''GDPR'']" by code_simp
  from generation_up_to_set_order[OF k1 k2 d1] obtain d2 where
    d2: "build_spec ascii_strings rev example_taxonomy ?m = Inr d2"
    and T: "truthy example_taxonomy \<longrightarrow>
          (\<exists>spec dv vv es cs.
             model_entities ?m = Inr es \<and>
             for_each compliance_step [] es = Inr cs \<and>
             d1 = PDict (d_set (PStr ''x-taxonomy'')
                    (obj [(''domain'', dv), (''version'', vv),
                          (''compliance'', PList cs)]) spec) \<and>
             d2 = PDict (d_set (PStr ''x-taxonomy'')
                    (obj [(''domain'', dv), (''version'', vv),
                          (''compliance'', PList (rev cs))]) spec) \<and>
             mset cs = mset (rev cs) \<and>
             (length cs \<le> 1 \<longrightarrow> d2 = d1))"
    by (elim exE conjE) (rule that; assumption)
  from T[THEN mp, OF t] obtain es cs where
    a: "model_entities ?m = Inr es" and b: "for_each compliance_step [] es = Inr cs"
    and c: "length cs \<le> 1 \<longrightarrow> d2 = d1"
    by (elim exE conjE) (rule that; assumption)
  from a have e: "es = ?es" unfolding me by simp
  from b[unfolded e, unfolded cs] have "cs = [PStr ''GDPR'']" by simp
  with c have "d2 = d1" by simp
  with k1 k2 n d1 d2 show ?thesis by simp
qed

text \<open>
  C6 as stated fails: \<^verbatim>\<open>list(compliance)\<close> walks a set of strings, whose order is
  not fixed by the inputs. With the compliance values \<^verbatim>\<open>HIPAA\<close> and \<^verbatim>\<open>GDPR\<close> and
  a taxonomy, two iteration orders give two different documents.
\<close>

theorem compliance_order_counterexample:
  "keeps_elements (\<lambda>xs. xs) \<and> keeps_elements rev \<and>
   result_at
     (build_spec ascii_strings (\<lambda>xs. xs) (obj [(''levels'', PList [PStr ''public''])])
        (obj [(''entities'', PList
           [obj [(''name'', PStr ''Visit''),
                 (''taxonomy_classification'',
                  obj [(''compliance'', PList [PStr ''HIPAA'', PStr ''GDPR''])])]])]))
     [''x-taxonomy'', ''compliance''] = Inr (PList [PStr ''HIPAA'', PStr ''GDPR'']) \<and>
   result_at
     (build_spec ascii_strings rev (obj [(''levels'', PList [PStr ''public''])])
        (obj [(''entities'', PList
           [obj [(''name'', PStr ''Visit''),
                 (''taxonomy_classification'',
                  obj [(''compliance'', PList [PStr ''HIPAA'', PStr ''GDPR''])])]])]))
     [''x-taxonomy'', ''compliance''] = Inr (PList [PStr ''GDPR'', PStr ''HIPAA''])"
proof -
  have "keeps_elements (\<lambda>xs. xs)" and "keeps_elements rev"
    by (simp_all add: keeps_elements_def)
  moreover have "result_at
     (build_spec ascii_strings (\<lambda>xs. xs) (obj [(''levels'', PList [PStr ''public''])])
        (obj [(''entities'', PList
           [obj [(''name'', PStr ''Visit''),
                 (''taxonomy_classification'',
                  obj [(''compliance'', PList [PStr ''HIPAA'', PStr ''GDPR''])])]])]))
     [''x-taxonomy'', ''compliance''] = Inr (PList [PStr ''HIPAA'', PStr ''GDPR''])"
    by code_simp
  moreover have "result_at
     (build_spec ascii_strings rev (obj [(''levels'', PList [PStr ''public''])])
        (obj [(''entities'', PList
           [obj [(''name'', PStr ''Visit''),
                 (''taxonomy_classification'',
                  obj [(''compliance'', PList [PStr ''HIPAA'', PStr ''GDPR''])])]])]))
     [''x-taxonomy'', ''compliance''] = Inr (PList [PStr ''GDPR'', PStr ''HIPAA''])"
    by code_simp
  ultimately show ?thesis by blast
qed

section \<open>What the taxonomy adds to the document\<close>

lemma x_taxonomy_keys:
  assumes "build_spec sm so tax model = Inr d"
  shows "py_in ''x-taxonomy'' d = Inr (truthy tax) \<and>
     (truthy tax \<longrightarrow>
        keys_at d [''x-taxonomy''] = Inr [PStr ''domain'', PStr ''version'', PStr ''compliance''])"
proof -
  from build_spec_Inr[OF assms] obtain mi ents tv ver descr schemas paths where
    d: "add_taxonomy so tax mi ents (openapi_spec tv ver descr paths schemas) = Inr d"
    by blast
  let ?spec = "openapi_spec tv ver descr paths schemas"
  have nox: "map_of ?spec (PStr ''x-taxonomy'') = None"
    by (simp add: openapi_spec_def)
  show ?thesis
  proof (cases "truthy tax")
    case False
    with add_taxonomy_Inr[OF d] have "d = PDict ?spec" by blast
    with False nox show ?thesis by (simp add: d_lookup_str)
  next
    case True
    with add_taxonomy_Inr[OF d] obtain dv vv c where
      dd: "d = PDict (d_set (PStr ''x-taxonomy'')
                  (obj [(''domain'', dv), (''version'', vv), (''compliance'', c)]) ?spec)"
      by blast
    show ?thesis
      unfolding dd using True
      by (simp add: keys_at_def keys_def d_lookup_str map_of_d_set_str obj_def)
  qed
qed

lemma init_absent:
  assumes "init rt fs taxonomy_file = Inr g"
    and "taxonomy_file = None \<or> (\<exists>p. taxonomy_file = Some p \<and> \<not> path_exists fs p)"
  shows "taxonomy g = PDict []"
  using assms by (auto simp: init_def split: option.splits if_splits)

text \<open>
  C8, as amended. With no taxonomy file given, or one that does not exist, the document
  has no \<^verbatim>\<open>x-taxonomy\<close> key. When the document has the key, the extension has
  exactly the keys \<^verbatim>\<open>domain\<close>, \<^verbatim>\<open>version\<close> and \<^verbatim>\<open>compliance\<close>, and any
  other non-empty taxonomy gives the very same document: the extension is made from the
  model, and the entries of the taxonomy are not merged into the output.
\<close>

theorem extension_holds_model_data:
  assumes "generate rt fs taxonomy_file model_file = Inr d"
  shows "((taxonomy_file = None \<or> (\<exists>p. taxonomy_file = Some p \<and> \<not> path_exists fs p))
            \<longrightarrow> py_in ''x-taxonomy'' d = Inr False) \<and>
         (py_in ''x-taxonomy'' d = Inr True \<longrightarrow>
            keys_at d [''x-taxonomy'']
              = Inr [PStr ''domain'', PStr ''version'', PStr ''compliance''] \<and>
            (\<forall>t. truthy t \<longrightarrow>
               generate_from_model rt fs \<lparr>taxonomy = t\<rparr> model_file = Inr d))"
proof -
  from assms obtain g where g: "init rt fs taxonomy_file = Inr g"
    and gen: "generate_from_model rt fs g model_file = Inr d"
    by (auto simp: generate_def and_then_Inr_iff)
  from gen obtain m where m: "read_json rt fs model_file = Inr m"
    and b: "build_spec (strings rt) (set_order rt) (taxonomy g) m = Inr d"
    by (auto simp: generate_from_model_def and_then_Inr_iff)
  note X = x_taxonomy_keys[OF b]
  have 1: "py_in ''x-taxonomy'' d = Inr False"
    if "taxonomy_file = None \<or> (\<exists>p. taxonomy_file = Some p \<and> \<not> path_exists fs p)"
    using X init_absent[OF g that] by simp
  have 2: "keys_at d [''x-taxonomy'']
              = Inr [PStr ''domain'', PStr ''version'', PStr ''compliance''] \<and>
            (\<forall>t. truthy t \<longrightarrow>
               generate_from_model rt fs \<lparr>taxonomy = t\<rparr> model_file = Inr d)"
    if x: "py_in ''x-taxonomy'' d = Inr True"
  proof -
    from X x have t: "truthy (taxonomy g)" by simp
    have "generate_from_model rt fs \<lparr>taxonomy = t'\<rparr> model_file = Inr d" if "truthy t'" for t'
    proof -
      from that t have "truthy t' = truthy (taxonomy g)" by simp
      from build_spec_truthy_cong[OF this] b m show ?thesis
        by (simp add: generate_from_model_def)
    qed
    with X t show ?thesis by simp
  qed
  from 1 2 show ?thesis by blast
qed

theorem extension_holds_model_data_witness:
  "and_then (generate example_runtime example_files (Some ''taxonomy.json'')
      ''models/user.model.json'') (py_in ''x-taxonomy'') = Inr True \<and>
   result_keys_at (generate example_runtime example_files (Some ''taxonomy.json'')
      ''models/user.model.json'') [''x-taxonomy'']
     = Inr [PStr ''domain'', PStr ''version'', PStr ''compliance''] \<and>
   generate_from_model example_runtime example_files \<lparr>taxonomy = PInt 7\<rparr>
      ''models/user.model.json''
     = generate example_runtime example_files (Some ''taxonomy.json'') ''models/user.model.json'' \<and>
   and_then (generate example_runtime example_files None ''models/user.model.json'')
      (py_in ''x-taxonomy'') = Inr False"
proof -
  let ?run = "generate example_runtime example_files (Some ''taxonomy.json'')
      ''models/user.model.json''"
  let ?plain = "generate example_runtime example_files None ''models/user.model.json''"
  have x: "and_then ?run (py_in ''x-taxonomy'') = Inr True" by code_simp
  then obtain d where d: "?run = Inr d" and xd: "py_in ''x-taxonomy'' d = Inr True"
    by (auto simp: and_then_Inr_iff)
  have "\<not> isl ?plain" by code_simp
  then obtain d0 where d0: "?plain = Inr d0" using not_isl_obtain by blast
  from extension_holds_model_data[OF d] xd
  have k: "keys_at d [''x-taxonomy''] = Inr [PStr ''domain'', PStr ''version'', PStr ''compliance'']"
    and t: "generate_from_model example_runtime example_files \<lparr>taxonomy = PInt 7\<rparr>
      ''models/user.model.json'' = Inr d"
    by simp_all
  from extension_holds_model_data[OF d0]
  have a: "py_in ''x-taxonomy'' d0 = Inr False" by simp
  from x k t a show ?thesis unfolding d d0 by (simp add: result_keys_at_def)
qed

text \<open>
  C8 as stated fails: the taxonomy file is loaded, and the extension of the document
  holds the model's domain and version and an empty compliance list; none of the strings
  of the taxonomy occurs anywhere in the document.
\<close>

theorem taxonomy_not_merged_counterexample:
  "init example_runtime example_files (Some ''taxonomy.json'')
     = Inr \<lparr>taxonomy = example_taxonomy\<rparr> \<and>
   strings_of example_taxonomy
     = [''levels'', ''public'', ''restricted'', ''owner'', ''data-office''] \<and>
   result_at (generate example_runtime example_files (Some ''taxonomy.json'')
      ''models/user.model.json'') [''x-taxonomy'']
     = Inr (obj [(''domain'', PStr ''user_account''), (''version'', PStr ''2.0.0''),
                 (''compliance'', PList [])]) \<and>
   set (strings_of example_taxonomy) \<inter>
     set (result_strings (generate example_runtime example_files (Some ''taxonomy.json'')
            ''models/user.model.json'')) = {}"
proof -
  have 1: "init example_runtime example_files (Some ''taxonomy.json'')
     = Inr \<lparr>taxonomy = example_taxonomy\<rparr>"
    by (simp add: init_def path_exists_def read_json_def example_files_def example_runtime_def)
  have 2: "strings_of example_taxonomy
     = [''levels'', ''public'', ''restricted'', ''owner'', ''data-office'']" by code_simp
  have 3: "result_at (generate example_runtime example_files (Some ''taxonomy.json'')
      ''models/user.model.json'') [''x-taxonomy'']
     = Inr (obj [(''domain'', PStr ''user_account''), (''version'', PStr ''2.0.0''),
                 (''compliance'', PList [])])" by code_simp
  have 4: "set (strings_of example_taxonomy) \<inter>
     set (result_strings (generate example_runtime example_files (Some ''taxonomy.json'')
            ''models/user.model.json'')) = {}" by code_simp
  from 1 2 3 4 show ?thesis by blast
qed

end
